theory Spec2Isabelle
  imports Complex_Main "HOL-Library.AList"
begin

section \<open>Python strings, errors and the two regular expressions of the parser\<close>

text \<open>
  A Python \<open>str\<close> is modelled as a \<open>string\<close> whose characters stand for the code
  points U+0000 to U+00FF. Every raise of the source is a value \<open>Inl e\<close> of a sum type.
\<close>

datatype py_error =
  IndexError
  | ValueError string
  | KeyError string
  | TypeError
  | AttributeError string
  | JSONDecodeError

definition newline :: char where
  "newline = CHR 0x0A"

text \<open>\<open>s.startswith(p)\<close>\<close>

definition startswith :: "string \<Rightarrow> string \<Rightarrow> bool" where
  "startswith s p \<longleftrightarrow> take (length p) s = p"

text \<open>
  \<open>s.split(sep)\<close> for a separator of one character: the result is never empty, so the
  branch for an empty recursive result is never taken.
\<close>

fun split_on :: "char \<Rightarrow> string \<Rightarrow> string list" where
  "split_on sep [] = [[]]"
| "split_on sep (c # cs) =
     (if c = sep then [] # split_on sep cs
      else (case split_on sep cs of
              [] \<Rightarrow> [[c]]
            | l # ls \<Rightarrow> (c # l) # ls))"

text \<open>\<open>xs[i]\<close> for an index that is not negative: IndexError when out of range.\<close>

definition py_getitem :: "'a list \<Rightarrow> nat \<Rightarrow> py_error + 'a" where
  "py_getitem xs i = (if i < length xs then Inr (xs ! i) else Inl IndexError)"

text \<open>
  The character classes of \<open>re\<close> on code points below 256: \<open>\s\<close> is the white space
  of \<open>str.isspace\<close>, \<open>\d\<close> the decimal digits, \<open>.\<close> anything but a newline.
\<close>

definition re_space :: "char \<Rightarrow> bool" where
  "re_space c \<longleftrightarrow> c \<in> {CHR 0x09, CHR 0x0A, CHR 0x0B, CHR 0x0C, CHR 0x0D,
     CHR 0x1C, CHR 0x1D, CHR 0x1E, CHR 0x1F, CHR 0x20, CHR 0x85, CHR 0xA0}"

definition re_digit :: "char \<Rightarrow> bool" where
  "re_digit c \<longleftrightarrow> c \<in> set ''0123456789''"

definition re_dot :: "char \<Rightarrow> bool" where
  "re_dot c \<longleftrightarrow> c \<noteq> newline"

text \<open>
  The backtracking matcher as lists of successes, in the order in which the engine tries
  them; \<open>re.search\<close> returns the first one. \<open>re_starts\<close> are the start positions from
  left to right, \<open>re_lit\<close> matches a literal, \<open>re_plus_lazy\<close> is \<open>X+?\<close> (shortest
  first), \<open>re_plus_greedy\<close> is \<open>X+\<close> (longest first); each returns the text consumed
  and the rest. \<open>re_eol\<close> is \<open>$\<close>: the end of the string, or just before a final newline.
\<close>

fun re_starts :: "string \<Rightarrow> string list" where
  "re_starts [] = [[]]"
| "re_starts (c # cs) = (c # cs) # re_starts cs"

definition re_lit :: "string \<Rightarrow> string \<Rightarrow> string list" where
  "re_lit p s = (if startswith s p then [drop (length p) s] else [])"

fun re_plus_lazy :: "(char \<Rightarrow> bool) \<Rightarrow> string \<Rightarrow> (string \<times> string) list" where
  "re_plus_lazy P [] = []"
| "re_plus_lazy P (c # cs) =
     (if P c then ([c], cs) # map (\<lambda>(g, r). (c # g, r)) (re_plus_lazy P cs) else [])"

fun re_plus_greedy :: "(char \<Rightarrow> bool) \<Rightarrow> string \<Rightarrow> (string \<times> string) list" where
  "re_plus_greedy P [] = []"
| "re_plus_greedy P (c # cs) =
     (if P c then map (\<lambda>(g, r). (c # g, r)) (re_plus_greedy P cs) @ [([c], cs)] else [])"

definition re_eol :: "string \<Rightarrow> bool" where
  "re_eol s \<longleftrightarrow> s = [] \<or> s = [newline]"

text \<open>\<open>re.search(r'a/(.+?)\s+b/(.+?)$', line)\<close>: groups 1 and 2 of the first match.\<close>

definition re_search_filename :: "string \<Rightarrow> (string \<times> string) option" where
  "re_search_filename line =
     (case [(g1, g2).
              s0 <- re_starts line,
              s1 <- re_lit ''a/'' s0,
              (g1, s2) <- re_plus_lazy re_dot s1,
              (ws, s3) <- re_plus_greedy re_space s2,
              s4 <- re_lit ''b/'' s3,
              (g2, s5) <- re_plus_lazy re_dot s4,
              re_eol s5] of
        [] \<Rightarrow> None
      | m # _ \<Rightarrow> Some m)"

text \<open>The optional group \<open>(?:,(\d+))?\<close>: first with the group, then without it.\<close>

definition re_opt_count :: "string \<Rightarrow> (string option \<times> string) list" where
  "re_opt_count s =
     [(Some g, r). s1 <- re_lit '','' s, (g, r) <- re_plus_greedy re_digit s1] @ [(None, s)]"

text \<open>
  \<open>re.search(r'@@ -(\d+)(?:,(\d+))? \+(\d+)(?:,(\d+))? @@', line)\<close>: groups 1 to 4 of
  the first match; an optional group that did not take part is \<open>None\<close>.
\<close>

definition re_search_hunk ::
  "string \<Rightarrow> (string \<times> string option \<times> string \<times> string option) option" where
  "re_search_hunk line =
     (case [(g1, g2, g3, g4).
              s0 <- re_starts line,
              s1 <- re_lit ''@@ -'' s0,
              (g1, s2) <- re_plus_greedy re_digit s1,
              (g2, s3) <- re_opt_count s2,
              s4 <- re_lit '' +'' s3,
              (g3, s5) <- re_plus_greedy re_digit s4,
              (g4, s6) <- re_opt_count s5,
              s7 <- re_lit '' @@'' s6] of
        [] \<Rightarrow> None
      | m # _ \<Rightarrow> Some m)"

text \<open>
  \<open>int(s)\<close> on the strings \<open>\d+\<close> can capture: the decimal value, unless the
  string has more digits than the interpreter converts (\<open>sys.int_info.default_max_str_digits\<close>
  of CPython, 4300), which raises ValueError. Any other string is reported as ValueError
  too, so the model raises wherever Python could.
\<close>

definition max_str_digits :: nat where
  "max_str_digits = 4300"

definition py_int :: "string \<Rightarrow> py_error + int" where
  "py_int s =
     (if s \<noteq> [] \<and> list_all re_digit s
      then (if max_str_digits < length s
            then Inl (ValueError ''Exceeds the limit (4300 digits) for integer string conversion'')
            else Inr (foldl (\<lambda>n c. 10 * n + (int (of_char c) - 48)) 0 s))
      else Inl (ValueError ''invalid literal for int()''))"

text \<open>\<open>int(g) if g else 1\<close> for an optional group \<open>g\<close>.\<close>

definition int_or_one :: "string option \<Rightarrow> py_error + int" where
  "int_or_one g =
     (case g of
        None \<Rightarrow> Inr 1
      | Some s \<Rightarrow> if s \<noteq> [] then py_int s else Inr 1)"

section \<open>The diff model (app/models.py)\<close>

record LineChange =
  content :: string
  change_type :: string
  line_number :: "int option"

record Hunk =
  old_start :: int
  old_count :: int
  new_start :: int
  new_count :: int
  lines :: "LineChange list"

record FilePatch =
  filename :: string
  status :: string
  additions :: int
  deletions :: int
  hunks :: "Hunk list"
  language :: "string option"

section \<open>DiffParser.parse\_unified\_diff (app/utils/diff\_parser.py)\<close>

text \<open>
  The parser builds each file as a dict that it keeps mutating after it may already have
  been appended to \<open>files\<close>, and it stores the list object \<open>current_hunks\<close> in the
  dict. Both kinds of object therefore live in a store: \<open>dicts\<close> holds the file dicts
  and \<open>lists\<close> the list objects of hunks, an address being an index. \<open>files\<close>,
  \<open>current_file\<close> and \<open>current_hunks\<close> hold addresses. A hunk dict and its
  \<open>lines\<close> are local until the hunk is complete, so they are plain values.
\<close>

record file_dict =
  d_filename :: string
  d_status :: string
  d_additions :: int
  d_deletions :: int
  d_hunks :: nat

record pstate =
  dicts :: "file_dict list"
  lists :: "Hunk list list"
  files :: "nat list"
  current_file :: "nat option"
  current_hunks :: nat

text \<open>\<open>files = []\<close>, \<open>current_file = None\<close>, \<open>current_hunks = []\<close>.\<close>

definition init_state :: pstate where
  "init_state = \<lparr>dicts = [], lists = [[]], files = [], current_file = None, current_hunks = 0\<rparr>"

text \<open>
  \<open>if current_file: current_file['hunks'] = current_hunks; files.append(current_file)\<close>
\<close>

definition flush_file :: "pstate \<Rightarrow> pstate" where
  "flush_file st =
     (case current_file st of
        None \<Rightarrow> st
      | Some a \<Rightarrow>
          st\<lparr>dicts := (dicts st)[a := (dicts st ! a)\<lparr>d_hunks := current_hunks st\<rparr>],
             files := files st @ [a]\<rparr>)"

text \<open>
  The branch of a line that starts with \<open>diff --git\<close>: the previous file is flushed; a
  header that matches allocates a new dict (whose \<open>hunks\<close> is a fresh empty list) and
  a fresh \<open>current_hunks\<close>; a header that does not match changes nothing else.
\<close>

definition file_header :: "string \<Rightarrow> pstate \<Rightarrow> pstate" where
  "file_header line st =
     (let st1 = flush_file st in
      case re_search_filename line of
        None \<Rightarrow> st1
      | Some (g1, g2) \<Rightarrow>
          st1\<lparr>dicts := dicts st1 @
                 [\<lparr>d_filename = g2, d_status = ''modified'', d_additions = 0,
                   d_deletions = 0, d_hunks = length (lists st1)\<rparr>],
              lists := lists st1 @ [[], []],
              current_file := Some (length (dicts st1)),
              current_hunks := Suc (length (lists st1))\<rparr>)"

text \<open>\<open>if current_file: current_file['status'] = s\<close>\<close>

definition set_status :: "string \<Rightarrow> pstate \<Rightarrow> pstate" where
  "set_status s st =
     (case current_file st of
        None \<Rightarrow> st
      | Some a \<Rightarrow> st\<lparr>dicts := (dicts st)[a := (dicts st ! a)\<lparr>d_status := s\<rparr>]\<rparr>)"

text \<open>\<open>if current_file: current_file['additions'] += 1\<close>, and the same for deletions.\<close>

definition count_addition :: "pstate \<Rightarrow> pstate" where
  "count_addition st =
     (case current_file st of
        None \<Rightarrow> st
      | Some a \<Rightarrow>
          st\<lparr>dicts := (dicts st)[a := (dicts st ! a)\<lparr>d_additions := d_additions (dicts st ! a) + 1\<rparr>]\<rparr>)"

definition count_deletion :: "pstate \<Rightarrow> pstate" where
  "count_deletion st =
     (case current_file st of
        None \<Rightarrow> st
      | Some a \<Rightarrow>
          st\<lparr>dicts := (dicts st)[a := (dicts st ! a)\<lparr>d_deletions := d_deletions (dicts st ! a) + 1\<rparr>]\<rparr>)"

text \<open>
  The body of the inner loop for one line \<open>hunk_line\<close>. Its state is the hunk under
  construction, the two local variables \<open>old_start\<close> and \<open>new_start\<close> (called
  \<open>old_cursor\<close> and \<open>new_cursor\<close> here, the names being taken by the fields of a
  hunk), and the store.
\<close>

type_synonym hunk_state = "Hunk \<times> int \<times> int \<times> pstate"

fun hunk_line_step :: "string \<Rightarrow> hunk_state \<Rightarrow> hunk_state" where
  "hunk_line_step hunk_line (hunk, old_cursor, new_cursor, st) =
     (if startswith hunk_line ''+'' \<and> \<not> startswith hunk_line ''+++'' then
        (hunk\<lparr>lines := lines hunk @
           [\<lparr>content = drop 1 hunk_line, change_type = ''add'', line_number = Some new_cursor\<rparr>]\<rparr>,
         old_cursor, new_cursor + 1, count_addition st)
      else if startswith hunk_line ''-'' \<and> \<not> startswith hunk_line ''---'' then
        (hunk\<lparr>lines := lines hunk @
           [\<lparr>content = drop 1 hunk_line, change_type = ''remove'', line_number = Some old_cursor\<rparr>]\<rparr>,
         old_cursor + 1, new_cursor, count_deletion st)
      else if startswith hunk_line '' '' then
        (hunk\<lparr>lines := lines hunk @
           [\<lparr>content = drop 1 hunk_line, change_type = ''context'', line_number = Some new_cursor\<rparr>]\<rparr>,
         old_cursor + 1, new_cursor + 1, st)
      else (hunk, old_cursor, new_cursor, st))"

text \<open>
  \<open>while i < len(lines) and not lines[i].startswith('@@') and not lines[i].startswith('diff')\<close>.
  The list of all lines is called \<open>lns\<close> here, \<open>lines\<close> being the field of a hunk.
\<close>

function hunk_loop :: "string list \<Rightarrow> nat \<Rightarrow> hunk_state \<Rightarrow> py_error + (nat \<times> hunk_state)" where
  "hunk_loop lns i hs =
     (if i < length lns then
        (case py_getitem lns i of
           Inl e \<Rightarrow> Inl e
         | Inr l \<Rightarrow>
             if \<not> startswith l ''@@'' \<and> \<not> startswith l ''diff''
             then hunk_loop lns (i + 1) (hunk_line_step l hs)
             else Inr (i, hs))
      else Inr (i, hs))"
  by pat_completeness auto
termination
  by (relation "measure (\<lambda>(lns, i, hs). length lns - i)") auto

declare hunk_loop.simps [simp del]

text \<open>\<open>current_hunks.append(hunk)\<close>\<close>

definition append_hunk :: "Hunk \<Rightarrow> pstate \<Rightarrow> pstate" where
  "append_hunk hunk st =
     st\<lparr>lists := (lists st)[current_hunks st := lists st ! current_hunks st @ [hunk]]\<rparr>"

text \<open>
  The branch of a line that starts with \<open>@@\<close>. When the header matches, the four numbers
  are converted, the hunk lines are consumed from \<open>i + 1\<close> on, the hunk is appended to
  the list object \<open>current_hunks\<close>, and \<open>i -= 1\<close> steps back onto the last line
  consumed. The result is the index before the final \<open>i += 1\<close> of the outer loop. The
  index is a natural number: it is never negative, since the inner loop returns an index of
  at least \<open>i + 1\<close> (lemma \<open>hunk_loop_index_ge\<close> below).
\<close>

definition hunk_header :: "string list \<Rightarrow> nat \<Rightarrow> string \<Rightarrow> pstate \<Rightarrow> py_error + (nat \<times> pstate)" where
  "hunk_header lns i line st =
     (case re_search_hunk line of
        None \<Rightarrow> Inr (i, st)
      | Some (g1, g2, g3, g4) \<Rightarrow>
          (case py_int g1 of Inl e \<Rightarrow> Inl e | Inr old_start0 \<Rightarrow>
          (case int_or_one g2 of Inl e \<Rightarrow> Inl e | Inr old_count0 \<Rightarrow>
          (case py_int g3 of Inl e \<Rightarrow> Inl e | Inr new_start0 \<Rightarrow>
          (case int_or_one g4 of Inl e \<Rightarrow> Inl e | Inr new_count0 \<Rightarrow>
          (case hunk_loop lns (i + 1)
                  (\<lparr>old_start = old_start0, old_count = old_count0, new_start = new_start0,
                    new_count = new_count0, lines = []\<rparr>, old_start0, new_start0, st) of
             Inl e \<Rightarrow> Inl e
           | Inr (j, hunk, old_cursor, new_cursor, st1) \<Rightarrow>
               Inr (j - 1, append_hunk hunk st1)))))))"

text \<open>One iteration of the outer loop, up to and including its final \<open>i += 1\<close>.\<close>

definition parse_step :: "string list \<Rightarrow> nat \<Rightarrow> pstate \<Rightarrow> py_error + (nat \<times> pstate)" where
  "parse_step lns i st =
     (case py_getitem lns i of
        Inl e \<Rightarrow> Inl e
      | Inr line \<Rightarrow>
          if startswith line ''diff --git'' then Inr (i + 1, file_header line st)
          else if startswith line ''new file'' then Inr (i + 1, set_status ''added'' st)
          else if startswith line ''deleted file'' then Inr (i + 1, set_status ''removed'' st)
          else if startswith line ''@@'' then
            (case hunk_header lns i line st of
               Inl e \<Rightarrow> Inl e
             | Inr (j, st1) \<Rightarrow> Inr (j + 1, st1))
          else Inr (i + 1, st))"

text \<open>The inner loop only moves forward, so every outer iteration advances \<open>i\<close>.\<close>

lemma hunk_loop_index_ge: "hunk_loop lns i hs = Inr (j, hs') \<Longrightarrow> i \<le> j"
proof (induction lns i hs rule: hunk_loop.induct)
  case (1 lns i hs)
  show ?case
  proof (cases "i < length lns \<and> \<not> startswith (lns ! i) ''@@'' \<and> \<not> startswith (lns ! i) ''diff''")
    case True
    with "1.prems" have "hunk_loop lns (i + 1) (hunk_line_step (lns ! i) hs) = Inr (j, hs')"
      by (subst (asm) hunk_loop.simps) (simp add: py_getitem_def)
    with True have "i + 1 \<le> j"
      using "1.IH" [of "lns ! i"] by (simp add: py_getitem_def)
    then show ?thesis by simp
  next
    case False
    with "1.prems" show ?thesis
      by (subst (asm) hunk_loop.simps) (auto simp: py_getitem_def split: if_splits)
  qed
qed

lemma hunk_header_index_ge: "hunk_header lns i line st = Inr (j, st') \<Longrightarrow> i \<le> j"
  by (fastforce simp: hunk_header_def split: option.splits sum.splits dest!: hunk_loop_index_ge)

lemma parse_step_index_gt: "parse_step lns i st = Inr (j, st') \<Longrightarrow> i < j"
  by (auto simp: parse_step_def split: sum.splits if_splits dest!: hunk_header_index_ge)

text \<open>\<open>while i < len(lines)\<close>: the outer loop.\<close>

function parse_loop :: "string list \<Rightarrow> nat \<Rightarrow> pstate \<Rightarrow> py_error + pstate" where
  "parse_loop lns i st =
     (if i < length lns then
        (case parse_step lns i st of
           Inl e \<Rightarrow> Inl e
         | Inr (j, st1) \<Rightarrow> parse_loop lns j st1)
      else Inr st)"
  by pat_completeness auto
termination
  by (relation "measure (\<lambda>(lns, i, st). length lns - i)")
     (auto dest!: parse_step_index_gt)

declare parse_loop.simps [simp del]

text \<open>
  \<open>FilePatch(**f)\<close>: the fields of the dict, its \<open>hunks\<close> read through the store,
  and the default \<open>language = None\<close>.
\<close>

definition to_FilePatch :: "pstate \<Rightarrow> nat \<Rightarrow> FilePatch" where
  "to_FilePatch st a =
     \<lparr>filename = d_filename (dicts st ! a), status = d_status (dicts st ! a),
      additions = d_additions (dicts st ! a), deletions = d_deletions (dicts st ! a),
      hunks = lists st ! d_hunks (dicts st ! a), language = None\<rparr>"

definition parse_unified_diff :: "string \<Rightarrow> py_error + FilePatch list" where
  "parse_unified_diff diff_text =
     (case parse_loop (split_on newline diff_text) 0 init_state of
        Inl e \<Rightarrow> Inl e
      | Inr st \<Rightarrow>
          (let st1 = flush_file st in Inr (map (to_FilePatch st1) (files st1))))"

subsection \<open>The cursor model of the specification, and the lines of one hunk\<close>

text \<open>
  The specification's words for the lines of a hunk: a line is added, removed, context or
  dropped by its prefix, and two cursors number the recorded lines. \<open>spec_hunk_lines\<close>
  follows those words on the list of lines of the hunk; it returns the recorded lines and
  the final old and new cursors.
\<close>

datatype line_kind = Added | Removed | Context | Dropped

definition spec_line_kind :: "string \<Rightarrow> line_kind" where
  "spec_line_kind l =
     (if startswith l ''+'' \<and> \<not> startswith l ''+++'' then Added
      else if startswith l ''-'' \<and> \<not> startswith l ''---'' then Removed
      else if startswith l '' '' then Context
      else Dropped)"

fun spec_hunk_lines ::
  "LineChange list \<Rightarrow> int \<Rightarrow> int \<Rightarrow> string list \<Rightarrow> LineChange list \<times> int \<times> int" where
  "spec_hunk_lines recorded old_cursor new_cursor [] = (recorded, old_cursor, new_cursor)"
| "spec_hunk_lines recorded old_cursor new_cursor (l # ls) =
     (case spec_line_kind l of
        Added \<Rightarrow>
          spec_hunk_lines
            (recorded @ [\<lparr>content = drop 1 l, change_type = ''add'', line_number = Some new_cursor\<rparr>])
            old_cursor (new_cursor + 1) ls
      | Removed \<Rightarrow>
          spec_hunk_lines
            (recorded @ [\<lparr>content = drop 1 l, change_type = ''remove'', line_number = Some old_cursor\<rparr>])
            (old_cursor + 1) new_cursor ls
      | Context \<Rightarrow>
          spec_hunk_lines
            (recorded @ [\<lparr>content = drop 1 l, change_type = ''context'', line_number = Some new_cursor\<rparr>])
            (old_cursor + 1) (new_cursor + 1) ls
      | Dropped \<Rightarrow> spec_hunk_lines recorded old_cursor new_cursor ls)"

text \<open>
  The lines the inner loop consumes from index \<open>i\<close> on: all lines up to the next one
  that starts with \<open>@@\<close> or \<open>diff\<close>, or up to the end of the input.
\<close>

definition hunk_body :: "string list \<Rightarrow> nat \<Rightarrow> string list" where
  "hunk_body lns i =
     takeWhile (\<lambda>l. \<not> startswith l ''@@'' \<and> \<not> startswith l ''diff'') (drop i lns)"

text \<open>The running totals of the current file after the lines of a hunk.\<close>

fun count_changes :: "string list \<Rightarrow> pstate \<Rightarrow> pstate" where
  "count_changes [] st = st"
| "count_changes (l # ls) st =
     count_changes ls
       (case spec_line_kind l of
          Added \<Rightarrow> count_addition st
        | Removed \<Rightarrow> count_deletion st
        | Context \<Rightarrow> st
        | Dropped \<Rightarrow> st)"

subsection \<open>The counts of the summary stage (app/agents/summary\_agent.py)\<close>

text \<open>
  \<open>sum(1 for hunk in file_patch.hunks for line in hunk.lines if line.change_type == t)\<close>,
  as \<open>_generate_file_reviews\<close> computes it with \<open>t = "add"\<close> and \<open>t = "remove"\<close>.
\<close>

definition count_type :: "string \<Rightarrow> Hunk list \<Rightarrow> int" where
  "count_type t hs = int (length [line. hunk <- hs, line <- lines hunk, change_type line = t])"

definition summary_additions :: "FilePatch \<Rightarrow> int" where
  "summary_additions file_patch = count_type ''add'' (hunks file_patch)"

definition summary_deletions :: "FilePatch \<Rightarrow> int" where
  "summary_deletions file_patch = count_type ''remove'' (hunks file_patch)"

subsection \<open>Counting the records of a diff\<close>

text \<open>
  The number of records the scan of the remaining lines appends to \<open>files\<close>, the last
  flush included, given whether there is a current file: each marker line flushes the
  current file if there is one, and a marker line whose header matches makes one.
\<close>

definition is_marker :: "string \<Rightarrow> bool" where
  "is_marker l \<longleftrightarrow> startswith l ''diff --git''"

fun n_records :: "bool \<Rightarrow> string list \<Rightarrow> nat" where
  "n_records has_current [] = (if has_current then 1 else 0)"
| "n_records has_current (l # ls) =
     (if is_marker l
      then (if has_current then 1 else 0) +
           n_records (has_current \<or> re_search_filename l \<noteq> None) ls
      else n_records has_current ls)"

subsection \<open>An invariant of the store\<close>

text \<open>
  \<open>store_inv pending st\<close>: the running totals of the current file count the lines of
  the hunks in \<open>current_hunks\<close> and the \<open>pending\<close> lines of the hunk under
  construction; a file in \<open>files\<close> that is still the current one holds
  \<open>current_hunks\<close> itself, and any other file in \<open>files\<close> holds another list
  object, whose lines its totals count.
\<close>

definition line_count :: "string \<Rightarrow> LineChange list \<Rightarrow> int" where
  "line_count t ls = int (length (filter (\<lambda>l. change_type l = t) ls))"

definition store_inv :: "LineChange list \<Rightarrow> pstate \<Rightarrow> bool" where
  "store_inv pending st \<longleftrightarrow>
     current_hunks st < length (lists st) \<and>
     (\<forall>a. current_file st = Some a \<longrightarrow>
        a < length (dicts st) \<and>
        d_additions (dicts st ! a) =
          count_type ''add'' (lists st ! current_hunks st) + line_count ''add'' pending \<and>
        d_deletions (dicts st ! a) =
          count_type ''remove'' (lists st ! current_hunks st) + line_count ''remove'' pending) \<and>
     (\<forall>a \<in> set (files st).
        a < length (dicts st) \<and>
        (if current_file st = Some a then d_hunks (dicts st ! a) = current_hunks st
         else d_hunks (dicts st ! a) < length (lists st) \<and>
              d_hunks (dicts st ! a) \<noteq> current_hunks st \<and>
              d_additions (dicts st ! a) = count_type ''add'' (lists st ! d_hunks (dicts st ! a)) \<and>
              d_deletions (dicts st ! a) = count_type ''remove'' (lists st ! d_hunks (dicts st ! a))))"

text \<open>
  \<open>names_inv lns st\<close>: \<open>files\<close> and \<open>current_file\<close> hold addresses of the store, and
  the name of every file dict is the second path captured from a marker line of the input.
\<close>

definition names_inv :: "string list \<Rightarrow> pstate \<Rightarrow> bool" where
  "names_inv lns st \<longleftrightarrow>
     (\<forall>a \<in> set (files st). a < length (dicts st)) \<and>
     (\<forall>a. current_file st = Some a \<longrightarrow> a < length (dicts st)) \<and>
     (\<forall>a < length (dicts st). \<exists>l \<in> set lns. is_marker l \<and>
        (\<exists>g1. re_search_filename l = Some (g1, d_filename (dicts st ! a))))"

subsection \<open>Hunk headers within the limit of \<open>int\<close>\<close>

text \<open>
  \<open>header_in_limit l\<close>: if the hunk pattern matches in the line \<open>l\<close>, none of the
  numbers it captures has more than \<open>max_str_digits\<close> digits.
\<close>

definition header_in_limit :: "string \<Rightarrow> bool" where
  "header_in_limit l =
     (case re_search_hunk l of
        None \<Rightarrow> True
      | Some (g1, g2, g3, g4) \<Rightarrow>
          length g1 \<le> max_str_digits \<and>
          (case g2 of None \<Rightarrow> True | Some g \<Rightarrow> length g \<le> max_str_digits) \<and>
          length g3 \<le> max_str_digits \<and>
          (case g4 of None \<Rightarrow> True | Some g \<Rightarrow> length g \<le> max_str_digits))"

section \<open>Python values of JSON shape\<close>

text \<open>
  What the agents exchange is dynamically typed: dicts, lists, strings and numbers, as
  \<open>json.loads\<close> returns them and as the agents build them. A dict is an association
  list in insertion order with string keys. A float is a real number (the only thing the
  code observes of a number is whether it is zero). Every operation on a value of the wrong
  type raises, as in Python.
\<close>

datatype pyval =
  PNone
  | PBool bool
  | PInt int
  | PFloat real
  | PStr string
  | PList "pyval list"
  | PDict "(string \<times> pyval) list"

text \<open>\<open>bool(v)\<close>, as \<open>if v:\<close> and \<open>if not v:\<close> test it.\<close>

fun py_truthy :: "pyval \<Rightarrow> bool" where
  "py_truthy PNone = False"
| "py_truthy (PBool b) = b"
| "py_truthy (PInt i) = (i \<noteq> 0)"
| "py_truthy (PFloat r) = (r \<noteq> 0)"
| "py_truthy (PStr s) = (s \<noteq> [])"
| "py_truthy (PList xs) = (xs \<noteq> [])"
| "py_truthy (PDict d) = (d \<noteq> [])"

text \<open>\<open>v.get(key, dflt)\<close> with a default value: only a dict has the method.\<close>

fun py_get :: "pyval \<Rightarrow> string \<Rightarrow> pyval \<Rightarrow> py_error + pyval" where
  "py_get (PDict d) key dflt =
     Inr (case map_of d key of None \<Rightarrow> dflt | Some v \<Rightarrow> v)"
| "py_get v key dflt = Inl (AttributeError ''get'')"

text \<open>\<open>v[key]\<close> for a string \<open>key\<close>.\<close>

fun py_subscript :: "pyval \<Rightarrow> string \<Rightarrow> py_error + pyval" where
  "py_subscript (PDict d) key =
     (case map_of d key of None \<Rightarrow> Inl (KeyError key) | Some v \<Rightarrow> Inr v)"
| "py_subscript v key = Inl TypeError"

text \<open>\<open>v[0]\<close>\<close>

fun py_first :: "pyval \<Rightarrow> py_error + pyval" where
  "py_first (PList []) = Inl IndexError"
| "py_first (PList (x # xs)) = Inr x"
| "py_first (PStr []) = Inl IndexError"
| "py_first (PStr (c # cs)) = Inr (PStr [c])"
| "py_first (PDict d) = Inl (KeyError ''0'')"
| "py_first v = Inl TypeError"

text \<open>The values \<open>for x in v\<close> runs through: a dict gives its keys, a string its characters.\<close>

fun py_iter :: "pyval \<Rightarrow> py_error + pyval list" where
  "py_iter (PList xs) = Inr xs"
| "py_iter (PDict d) = Inr (map (\<lambda>(k, v). PStr k) d)"
| "py_iter (PStr s) = Inr (map (\<lambda>c. PStr [c]) s)"
| "py_iter v = Inl TypeError"

text \<open>
  \<open>key in v\<close> for a string \<open>key\<close>: a key of a dict, an element of a list, a substring
  of a string.
\<close>

fun py_contains :: "pyval \<Rightarrow> string \<Rightarrow> py_error + bool" where
  "py_contains (PDict d) key = Inr (key \<in> set (map fst d))"
| "py_contains (PList xs) key = Inr (PStr key \<in> set xs)"
| "py_contains (PStr s) key = Inr (list_ex (\<lambda>t. startswith t key) (re_starts s))"
| "py_contains v key = Inl TypeError"

text \<open>\<open>sep.join(xs)\<close>: every element must be a string.\<close>

fun py_join :: "string \<Rightarrow> pyval list \<Rightarrow> py_error + string" where
  "py_join sep [] = Inr []"
| "py_join sep [PStr s] = Inr s"
| "py_join sep (PStr s # x # xs) =
     (case py_join sep (x # xs) of Inl e \<Rightarrow> Inl e | Inr r \<Rightarrow> Inr (s @ sep @ r))"
| "py_join sep (v # xs) = Inl TypeError"

text \<open>\<open>s.strip()\<close>\<close>

definition py_strip :: "string \<Rightarrow> string" where
  "py_strip s = rev (dropWhile re_space (rev (dropWhile re_space s)))"

text \<open>
  \<open>{**base, **v}\<close>: the items of the mapping \<open>v\<close> are stored into \<open>base\<close> in their
  order, a key already there keeping its place; anything but a dict is no mapping.
\<close>

fun py_dict_merge :: "(string \<times> pyval) list \<Rightarrow> pyval \<Rightarrow> py_error + pyval" where
  "py_dict_merge base (PDict d) = Inr (PDict (foldl (\<lambda>b (k, v). AList.update k v b) base d))"
| "py_dict_merge base v = Inl TypeError"

text \<open>
  An element of \<open>parsed_files\<close> is a value of JSON shape or, as the controller passes
  it, a \<open>FilePatch\<close> object, which has no method \<open>get\<close>.
\<close>

datatype file_data = Data pyval | Object FilePatch

fun file_get :: "file_data \<Rightarrow> string \<Rightarrow> pyval \<Rightarrow> py_error + pyval" where
  "file_get (Data v) key dflt = py_get v key dflt"
| "file_get (Object p) key dflt = Inl (AttributeError ''get'')"

section \<open>The analyzers (app/agents/reviewer\_agent.py, security\_agent.py, performance\_agent.py)\<close>

text \<open>
  The three analyzers run the same code with their own \<open>agent_name\<close> and
  \<open>analysis_type\<close>. The backend \<open>self.gemini.analyze_code\<close> is a parameter: a function
  of the analysis type, the code snippet and the context (file name, title and body of the
  pull request) that returns a value or raises.
\<close>

type_synonym request = "string \<times> string \<times> pyval \<times> pyval \<times> pyval"

type_synonym backend = "request \<Rightarrow> py_error + pyval"

text \<open>A list comprehension whose elements may raise: the first exception ends it.\<close>

fun collect :: "('e + 'a) list \<Rightarrow> 'e + 'a list" where
  "collect [] = Inr []"
| "collect (x # xs) =
     (case x of
        Inl e \<Rightarrow> Inl e
      | Inr v \<Rightarrow> (case collect xs of Inl e \<Rightarrow> Inl e | Inr vs \<Rightarrow> Inr (v # vs)))"

text \<open>
  The statements of the loop body before the \<open>try\<close>. \<open>Inl\<close>: one of them raises, which
  ends \<open>analyze\<close>. \<open>Inr None\<close>: \<open>continue\<close>. Otherwise the file name, the added lines
  and the code snippet.
\<close>

definition file_prepare :: "file_data \<Rightarrow> py_error + (pyval \<times> pyval \<times> string) option" where
  "file_prepare file_data =
     (case file_get file_data ''file_name'' (PStr ''unknown'') of Inl e \<Rightarrow> Inl e | Inr file_name \<Rightarrow>
     (case file_get file_data ''added_lines'' (PList []) of Inl e \<Rightarrow> Inl e | Inr added_lines \<Rightarrow>
        if \<not> py_truthy added_lines then Inr None
        else
          (case py_iter added_lines of Inl e \<Rightarrow> Inl e | Inr ls \<Rightarrow>
          (case collect (map (\<lambda>line. py_subscript line ''content'') ls) of Inl e \<Rightarrow> Inl e | Inr cs \<Rightarrow>
          (case py_join [newline] cs of Inl e \<Rightarrow> Inl e | Inr code_snippet \<Rightarrow>
             if py_strip code_snippet = [] then Inr None
             else Inr (Some (file_name, added_lines, code_snippet)))))))"

text \<open>\<open>added_lines[0].get("line_number") if added_lines else None\<close>\<close>

definition first_line_number :: "pyval \<Rightarrow> py_error + pyval" where
  "first_line_number added_lines =
     (if py_truthy added_lines
      then (case py_first added_lines of Inl e \<Rightarrow> Inl e | Inr l \<Rightarrow> py_get l ''line_number'' PNone)
      else Inr PNone)"

text \<open>
  \<open>for issue in analysis["issues"]: results.append({...})\<close>, inside the \<open>try\<close>: the
  findings are appended until a statement raises. The result is \<open>results\<close> as it then
  stands, and the exception if there is one.
\<close>

fun add_issues ::
  "pyval \<Rightarrow> pyval \<Rightarrow> string \<Rightarrow> pyval list \<Rightarrow> pyval list \<Rightarrow> pyval list \<times> py_error option" where
  "add_issues file_name added_lines agent_name results [] = (results, None)"
| "add_issues file_name added_lines agent_name results (issue # issues) =
     (case first_line_number added_lines of
        Inl e \<Rightarrow> (results, Some e)
      | Inr line_no \<Rightarrow>
          (case py_dict_merge
                  [(''file'', file_name), (''line'', line_no), (''agent'', PStr agent_name)] issue of
             Inl e \<Rightarrow> (results, Some e)
           | Inr finding \<Rightarrow>
               add_issues file_name added_lines agent_name (results @ [finding]) issues))"

text \<open>The body of the \<open>try\<close> for one file.\<close>

definition analyze_try ::
  "backend \<Rightarrow> string \<Rightarrow> string \<Rightarrow> pyval \<Rightarrow> pyval list \<Rightarrow> pyval \<times> pyval \<times> string \<Rightarrow>
   pyval list \<times> py_error option" where
  "analyze_try gemini agent_name analysis_type pr_data results prepared =
     (case prepared of (file_name, added_lines, code_snippet) \<Rightarrow>
     (case py_get pr_data ''title'' (PStr []) of Inl e \<Rightarrow> (results, Some e) | Inr title \<Rightarrow>
     (case py_get pr_data ''body'' (PStr []) of Inl e \<Rightarrow> (results, Some e) | Inr body \<Rightarrow>
     (case gemini (analysis_type, code_snippet, file_name, title, body) of
        Inl e \<Rightarrow> (results, Some e)
      | Inr analysis \<Rightarrow>
     (case py_contains analysis ''issues'' of Inl e \<Rightarrow> (results, Some e) | Inr has_issues \<Rightarrow>
        if \<not> has_issues then (results, None)
        else
          (case py_subscript analysis ''issues'' of Inl e \<Rightarrow> (results, Some e) | Inr issues \<Rightarrow>
             if \<not> py_truthy issues then (results, None)
             else
               (case py_iter issues of
                  Inl e \<Rightarrow> (results, Some e)
                | Inr items \<Rightarrow> add_issues file_name added_lines agent_name results items)))))))"

text \<open>
  One iteration of \<open>for file_data in parsed_files\<close>. An exception inside the \<open>try\<close>
  is logged and the loop continues with \<open>results\<close> as it stands; one before it ends
  \<open>analyze\<close>.
\<close>

definition analyze_file ::
  "backend \<Rightarrow> string \<Rightarrow> string \<Rightarrow> pyval \<Rightarrow> pyval list \<Rightarrow> file_data \<Rightarrow> py_error + pyval list" where
  "analyze_file gemini agent_name analysis_type pr_data results file_data =
     (case file_prepare file_data of
        Inl e \<Rightarrow> Inl e
      | Inr None \<Rightarrow> Inr results
      | Inr (Some prepared) \<Rightarrow>
          Inr (fst (analyze_try gemini agent_name analysis_type pr_data results prepared)))"

fun analyze_loop ::
  "backend \<Rightarrow> string \<Rightarrow> string \<Rightarrow> pyval \<Rightarrow> pyval list \<Rightarrow> file_data list \<Rightarrow> py_error + pyval list" where
  "analyze_loop gemini agent_name analysis_type pr_data results [] = Inr results"
| "analyze_loop gemini agent_name analysis_type pr_data results (file_data # rest) =
     (case analyze_file gemini agent_name analysis_type pr_data results file_data of
        Inl e \<Rightarrow> Inl e
      | Inr results1 \<Rightarrow> analyze_loop gemini agent_name analysis_type pr_data results1 rest)"

definition analyze ::
  "backend \<Rightarrow> string \<Rightarrow> string \<Rightarrow> file_data list \<Rightarrow> pyval \<Rightarrow> py_error + pyval list" where
  "analyze gemini agent_name analysis_type parsed_files pr_data =
     analyze_loop gemini agent_name analysis_type pr_data [] parsed_files"


section \<open>GeminiService.generate\_json\_response (app/services/gemini\_service.py)\<close>

text \<open>\<open>s.endswith(p)\<close>\<close>

definition endswith :: "string \<Rightarrow> string \<Rightarrow> bool" where
  "endswith s p \<longleftrightarrow> length p \<le> length s \<and> drop (length s - length p) s = p"

text \<open>The cleaning of the reply: the fences of a markdown code block are cut off.\<close>

definition clean_response :: "string \<Rightarrow> string" where
  "clean_response response_text =
     (let cleaned = py_strip response_text;
          cleaned = (if startswith cleaned ''```json'' then drop 7 cleaned else cleaned);
          cleaned = (if startswith cleaned ''```'' then drop 3 cleaned else cleaned);
          cleaned = (if endswith cleaned ''```'' then take (length cleaned - 3) cleaned else cleaned)
      in py_strip cleaned)"

text \<open>
  \<open>generate_response\<close> (the call of the model) and \<open>json.loads\<close> are parameters; the
  prompt is of any type. A reply that is no JSON gives the fixed dict of the source; every
  other exception is raised again.
\<close>

definition generate_json_response ::
  "('p \<Rightarrow> py_error + string) \<Rightarrow> (string \<Rightarrow> py_error + pyval) \<Rightarrow> 'p \<Rightarrow> py_error + pyval" where
  "generate_json_response generate_response json_loads prompt =
     (case generate_response prompt of
        Inl e \<Rightarrow> Inl e
      | Inr response_text \<Rightarrow>
          (case json_loads (clean_response response_text) of
             Inl JSONDecodeError \<Rightarrow>
               Inr (PDict [(''files'', PList []), (''error'', PStr ''Failed to parse AI response'')])
           | Inl e \<Rightarrow> Inl e
           | Inr result \<Rightarrow> Inr result))"

section \<open>SeniorEngineerAgent.refine (app/agents/senior\_engineer\_agent.py)\<close>

text \<open>
  \<open>issues_by_file\<close> is a dict keyed by the file name of a finding, which can be any
  value: a list or a dict is not hashable, and numbers are equal keys when they are equal
  as numbers.
\<close>

fun py_hashable :: "pyval \<Rightarrow> bool" where
  "py_hashable (PList xs) = False"
| "py_hashable (PDict d) = False"
| "py_hashable v = True"

fun py_number :: "pyval \<Rightarrow> real option" where
  "py_number (PBool b) = Some (if b then 1 else 0)"
| "py_number (PInt i) = Some (real_of_int i)"
| "py_number (PFloat r) = Some r"
| "py_number v = None"

definition py_key_eq :: "pyval \<Rightarrow> pyval \<Rightarrow> bool" where
  "py_key_eq a b =
     (case (py_number a, py_number b) of
        (Some x, Some y) \<Rightarrow> x = y
      | (None, None) \<Rightarrow> a = b
      | _ \<Rightarrow> False)"

text \<open>
  \<open>if file_name not in issues_by_file: issues_by_file[file_name] = []\<close> and
  \<open>issues_by_file[file_name].append(issue)\<close>
\<close>

fun group_add :: "(pyval \<times> pyval list) list \<Rightarrow> pyval \<Rightarrow> pyval \<Rightarrow> (pyval \<times> pyval list) list" where
  "group_add [] file_name issue = [(file_name, [issue])]"
| "group_add ((k, file_issues) # rest) file_name issue =
     (if py_key_eq k file_name then (k, file_issues @ [issue]) # rest
      else (k, file_issues) # group_add rest file_name issue)"

fun group_issues ::
  "(pyval \<times> pyval list) list \<Rightarrow> pyval list \<Rightarrow> py_error + (pyval \<times> pyval list) list" where
  "group_issues issues_by_file [] = Inr issues_by_file"
| "group_issues issues_by_file (issue # issues) =
     (case py_get issue ''file'' (PStr ''unknown'') of
        Inl e \<Rightarrow> Inl e
      | Inr file_name \<Rightarrow>
          if \<not> py_hashable file_name then Inl TypeError
          else group_issues (group_add issues_by_file file_name issue) issues)"

text \<open>
  \<open>for issue in refined["refined_issues"]: refined_results.append({...})\<close>, inside the
  \<open>try\<close>.
\<close>

fun add_refined ::
  "pyval \<Rightarrow> string \<Rightarrow> pyval list \<Rightarrow> pyval list \<Rightarrow> pyval list \<times> py_error option" where
  "add_refined file_name agent_name refined_results [] = (refined_results, None)"
| "add_refined file_name agent_name refined_results (issue # issues) =
     (case py_dict_merge [(''file'', file_name), (''agent'', PStr agent_name)] issue of
        Inl e \<Rightarrow> (refined_results, Some e)
      | Inr r \<Rightarrow> add_refined file_name agent_name (refined_results @ [r]) issues)"

text \<open>
  The backend \<open>self.gemini.generate_json_response\<close> of the refinement is a parameter. Its
  argument stands for the prompt, which the source builds from the file name and the JSON
  text of the file's findings (\<open>json.dumps\<close> of values of JSON shape does not raise).
\<close>

type_synonym refine_backend = "pyval \<times> pyval list \<Rightarrow> py_error + pyval"

text \<open>The body of the \<open>try\<close> for one file.\<close>

definition refine_try ::
  "refine_backend \<Rightarrow> pyval list \<Rightarrow> pyval \<times> pyval list \<Rightarrow> pyval list \<times> py_error option" where
  "refine_try gemini refined_results file_group =
     (case file_group of (file_name, file_issues) \<Rightarrow>
     (case gemini (file_name, file_issues) of
        Inl e \<Rightarrow> (refined_results, Some e)
      | Inr refined \<Rightarrow>
     (case py_contains refined ''refined_issues'' of
        Inl e \<Rightarrow> (refined_results, Some e)
      | Inr has_refined \<Rightarrow>
          if \<not> has_refined then (refined_results, None)
          else
            (case py_subscript refined ''refined_issues'' of
               Inl e \<Rightarrow> (refined_results, Some e)
             | Inr refined_issues \<Rightarrow>
                 (case py_iter refined_issues of
                    Inl e \<Rightarrow> (refined_results, Some e)
                  | Inr items \<Rightarrow>
                      add_refined file_name ''Senior Engineer'' refined_results items)))))"

text \<open>
  One iteration of \<open>for file_name, file_issues in issues_by_file.items()\<close>:
  \<open>except Exception: refined_results.extend(file_issues)\<close>.
\<close>

definition refine_file :: "refine_backend \<Rightarrow> pyval list \<Rightarrow> pyval \<times> pyval list \<Rightarrow> pyval list" where
  "refine_file gemini refined_results file_group =
     (case refine_try gemini refined_results file_group of
        (refined_results1, None) \<Rightarrow> refined_results1
      | (refined_results1, Some e) \<Rightarrow> refined_results1 @ snd file_group)"

text \<open>\<open>agent_results\<close> is the dict of the controller: each key with a list of findings.\<close>

definition refine :: "refine_backend \<Rightarrow> (string \<times> pyval list) list \<Rightarrow> py_error + pyval list" where
  "refine gemini agent_results =
     (let all_issues =
            concat (map snd (filter (\<lambda>(agent_type, issues). agent_type \<noteq> ''engineering_feedback'')
                              agent_results))
      in if all_issues = [] then Inr []
         else
           (case group_issues [] all_issues of
              Inl e \<Rightarrow> Inl e
            | Inr issues_by_file \<Rightarrow> Inr (foldl (refine_file gemini) [] issues_by_file)))"

section \<open>ReviewController.\_run\_all\_agents (app/controllers/review\_controller.py)\<close>

text \<open>
  \<open>_safe_agent_call\<close>: the method (which every agent here has) is called; any exception
  gives the empty list.
\<close>

definition safe_agent_call :: "py_error + pyval list \<Rightarrow> pyval list" where
  "safe_agent_call outcome = (case outcome of Inl e \<Rightarrow> [] | Inr r \<Rightarrow> r)"

record agent_results =
  code_review :: "pyval list"
  security :: "pyval list"
  performance :: "pyval list"
  engineering_feedback :: "pyval list"
  comments :: "pyval list"

text \<open>
  The three analyzers, then the refinement on the dict of results so far, then the
  combination of the three lists. No statement of the body raises, so the outer
  \<open>except\<close> is never entered.
\<close>

definition run_all_agents ::
  "backend \<Rightarrow> refine_backend \<Rightarrow> file_data list \<Rightarrow> pyval \<Rightarrow> agent_results" where
  "run_all_agents gemini refine_gemini parsed_files pr_data =
     (let r1 = safe_agent_call (analyze gemini ''Code Reviewer'' ''review'' parsed_files pr_data);
          r2 = safe_agent_call (analyze gemini ''Security Auditor'' ''security'' parsed_files pr_data);
          r3 = safe_agent_call (analyze gemini ''Performance Analyst'' ''performance'' parsed_files pr_data);
          r4 = safe_agent_call
                 (refine refine_gemini
                    [(''code_review'', r1), (''security'', r2), (''performance'', r3),
                     (''engineering_feedback'', []), (''comments'', [])])
      in \<lparr>code_review = r1, security = r2, performance = r3, engineering_feedback = r4,
          comments = r1 @ r2 @ r3\<rparr>)"


subsection \<open>Inputs of the examples\<close>








text \<open>One finding of the code review for \<open>x.py\<close>, in the dict of results of the controller.\<close>

definition demo_finding :: pyval where
  "demo_finding =
     PDict [(''file'', PStr ''x.py''), (''line'', PInt 3), (''agent'', PStr ''Code Reviewer''),
            (''type'', PStr ''code_quality''), (''severity'', PStr ''high''),
            (''message'', PStr ''unused variable'')]"

definition demo_agent_results :: "(string \<times> pyval list) list" where
  "demo_agent_results =
     [(''code_review'', [demo_finding]), (''security'', []), (''performance'', []),
      (''engineering_feedback'', []), (''comments'', [])]"

text \<open>
  A backend of the refinement whose model replies with a sentence, which \<open>json.loads\<close>
  rejects.
\<close>

definition demo_unparseable_backend :: refine_backend where
  "demo_unparseable_backend =
     generate_json_response (\<lambda>prompt. Inr ''Sorry, I cannot refine these findings.'')
       (\<lambda>s. if s = ''Sorry, I cannot refine these findings.'' then Inl JSONDecodeError
            else Inr PNone)"


section \<open>ReviewController.\_format\_review\_comment (app/controllers/review\_controller.py)\<close>

text \<open>
  The review is the dict the summary stage returns. Here it is typed: a key that may be
  missing is an option. The text of the comment is in UTF-8, a character being a byte, so
  that the emoji of the source are the byte sequences below. \<open>str.upper\<close>, which
  maps the letters of all of Unicode, is not modelled: the functions below take it as the
  parameter \<open>upper\<close>.
\<close>

record review_issue =
  severity :: "string option"
  category :: "string option"
  issue_line :: "string option"
  issue_comment :: "string option"
  suggested_fix :: "string option"

record file_review =
  fr_filename :: "string option"
  fr_issues :: "review_issue list option"

text \<open>
  \<open>ReviewDict summary files_review\<close> is a dict with the two keys the function reads;
  \<open>ReviewOther s\<close> is any other value, \<open>s\<close> being its \<open>str\<close>. In an issue,
  \<open>issue_line\<close> is the \<open>str\<close> of the value of the key \<open>line\<close>, and
  \<open>suggested_fix\<close> is \<open>None\<close> when the key is missing or holds \<open>None\<close>.
\<close>

datatype review = ReviewDict "string option" "file_review list option" | ReviewOther string

definition emoji_robot :: string where
  "emoji_robot = [CHR 0xF0, CHR 0x9F, CHR 0xA4, CHR 0x96]"

definition emoji_page :: string where
  "emoji_page = [CHR 0xF0, CHR 0x9F, CHR 0x93, CHR 0x84]"

definition emoji_red :: string where
  "emoji_red = [CHR 0xF0, CHR 0x9F, CHR 0x94, CHR 0xB4]"

definition emoji_yellow :: string where
  "emoji_yellow = [CHR 0xF0, CHR 0x9F, CHR 0x9F, CHR 0xA1]"

definition emoji_green :: string where
  "emoji_green = [CHR 0xF0, CHR 0x9F, CHR 0x9F, CHR 0xA2]"

definition emoji_white :: string where
  "emoji_white = [CHR 0xE2, CHR 0x9A, CHR 0xAA]"

definition emoji_bulb :: string where
  "emoji_bulb = [CHR 0xF0, CHR 0x9F, CHR 0x92, CHR 0xA1]"

definition emoji_check :: string where
  "emoji_check = [CHR 0xE2, CHR 0x9C, CHR 0x85]"

text \<open>\<open>d.get(key, dflt)\<close> for a key that may be missing.\<close>

definition get_or :: "'a option \<Rightarrow> 'a \<Rightarrow> 'a" where
  "get_or v dflt = (case v of None \<Rightarrow> dflt | Some x \<Rightarrow> x)"

text \<open>\<open>{"high": ..., "medium": ..., "low": ...}.get(issue.get("severity", "low"), ...)\<close>\<close>

definition severity_emoji :: "review_issue \<Rightarrow> string" where
  "severity_emoji issue =
     (let s = get_or (severity issue) ''low'' in
      if s = ''high'' then emoji_red
      else if s = ''medium'' then emoji_yellow
      else if s = ''low'' then emoji_green
      else emoji_white)"

text \<open>The text one iteration of \<open>for issue in file_review["issues"]\<close> appends.\<close>

definition format_issue :: "(string \<Rightarrow> string) \<Rightarrow> review_issue \<Rightarrow> string" where
  "format_issue upper issue =
     severity_emoji issue @ '' **'' @ upper (get_or (category issue) ''ISSUE'') @
       ''** (Line '' @ get_or (issue_line issue) ''N/A'' @ '')'' @ [newline] @
     ''- '' @ get_or (issue_comment issue) ''No details'' @ [newline] @
     (case suggested_fix issue of
        None \<Rightarrow> []
      | Some fix \<Rightarrow>
          if fix \<noteq> [] then ''- '' @ emoji_bulb @ '' *Suggestion:* '' @ fix @ [newline] else []) @
     [newline]"

text \<open>
  The text one iteration of \<open>for file_review in review["files_review"]\<close> appends: the
  heading of the file, then its issues when the key is there and the list is not empty.
\<close>

definition format_file_review :: "(string \<Rightarrow> string) \<Rightarrow> file_review \<Rightarrow> string" where
  "format_file_review upper fr =
     ''#### '' @ emoji_page @ '' `'' @ get_or (fr_filename fr) ''Unknown'' @ ''`'' @
       [newline, newline] @
     (case fr_issues fr of
        None \<Rightarrow> []
      | Some file_issues \<Rightarrow> concat (map (format_issue upper) file_issues))"

definition comment_header :: string where
  "comment_header = ''## '' @ emoji_robot @ '' Automated PR Review'' @ [newline, newline]"

definition comment_footer :: string where
  "comment_footer = [newline] @ ''---'' @ [newline] @ ''*Generated by AI-powered PR Review Agent*''"

definition no_issues_line :: string where
  "no_issues_line = emoji_check @ '' No issues found!'' @ [newline]"

definition format_review_comment :: "(string \<Rightarrow> string) \<Rightarrow> review \<Rightarrow> string" where
  "format_review_comment upper review =
     comment_header @
     (case review of
        ReviewDict summary files_review \<Rightarrow>
          (case summary of
             None \<Rightarrow> []
           | Some s \<Rightarrow> ''### Summary'' @ [newline] @ s @ [newline, newline]) @
          (case files_review of
             Some (fr # frs) \<Rightarrow>
               ''### Detailed Findings'' @ [newline, newline] @
               concat (map (format_file_review upper) (fr # frs))
           | _ \<Rightarrow> no_issues_line)
      | ReviewOther s \<Rightarrow> ''```'' @ [newline] @ s @ [newline] @ ''```'' @ [newline]) @
     comment_footer"

text \<open>The number of findings of a report: the issues of all its file reviews.\<close>

definition total_findings :: "review \<Rightarrow> nat" where
  "total_findings review =
     (case review of
        ReviewDict summary (Some frs) \<Rightarrow>
          length (concat (map (\<lambda>fr. get_or (fr_issues fr) []) frs))
      | _ \<Rightarrow> 0)"

definition demo_clean_review :: review where
  "demo_clean_review =
     ReviewDict (Some ''Looks good.'') (Some [\<lparr>fr_filename = Some ''x.py'', fr_issues = Some []\<rparr>])"

section \<open>Configuration and start of the process\<close>

text \<open>
  The environment after \<open>load_dotenv()\<close>, reduced to the two variables that the
  constructors below read with \<open>os.getenv\<close>; an unset variable is \<open>None\<close>.
\<close>

record environ =
  GITHUB_TOKEN :: "string option"
  GEMINI_API_KEY :: "string option"

text \<open>
  app/config/settings.py. Its module level runs \<open>settings = Settings()\<close>, the constructor
  of the settings library, which reads and validates all the fields from the environment:
  what it returns or raises is a parameter of \<open>startup\<close> below. Of an instance, the
  fields that the rest of the code reads are kept.
\<close>

record Settings =
  github_token :: string
  gemini_api_key :: string
  api_timeout :: int
  log_level :: string

text \<open>
  The directory app/config has no \<open>__init__.py\<close>, so it is a namespace package without
  attributes of its own, and \<open>from app.config import settings\<close> binds the name
  \<open>settings\<close> to the module app/config/settings.py, not to the instance that the module
  keeps in its global \<open>settings\<close>. An attribute of that module is one of its global
  names; any other name raises AttributeError. (The attributes every module has, such as
  \<open>__name__\<close>, are left out: the code reads none of them.)
\<close>

datatype module_attr = Library | SettingsClass | SettingsInstance Settings | Function

definition settings_module_getattr :: "Settings \<Rightarrow> string \<Rightarrow> py_error + module_attr" where
  "settings_module_getattr instance name =
     (if name \<in> set [''BaseSettings'', ''Field'', ''Optional'', ''os'', ''load_dotenv''] then Inr Library
      else if name = ''Settings'' then Inr SettingsClass
      else if name = ''settings'' then Inr (SettingsInstance instance)
      else if name = ''validate_settings'' then Inr Function
      else Inl (AttributeError name))"

text \<open>
  app/utils/logger.py: \<open>setup_logger()\<close> evaluates \<open>settings.log_level\<close> first; the
  calls into \<open>logging\<close> that follow configure the logger and do not raise.
\<close>

definition setup_logger :: "Settings \<Rightarrow> py_error + unit" where
  "setup_logger instance =
     (case settings_module_getattr instance ''log_level'' of
        Inl e \<Rightarrow> Inl e
      | Inr level \<Rightarrow> Inr ())"

text \<open>
  app/config/gemini\_client.py: the constructor raises when the variable is unset or
  empty. The result is the attribute it stores.
\<close>

definition GeminiConfig_init :: "environ \<Rightarrow> py_error + string" where
  "GeminiConfig_init env =
     (case GEMINI_API_KEY env of
        None \<Rightarrow> Inl (ValueError ''GEMINI_API_KEY not found in environment variables. Please set it in your .env file.'')
      | Some api_key \<Rightarrow>
          if api_key = []
          then Inl (ValueError ''GEMINI_API_KEY not found in environment variables. Please set it in your .env file.'')
          else Inr api_key)"

text \<open>
  The constructors of the two services. \<open>GeminiService\<close> builds a \<open>GeminiConfig\<close>;
  \<open>GitHubService\<close> reads \<open>settings.github_token\<close> and builds no \<open>GitHubConfig\<close>. The
  calls into the client library of the model only store the key.
\<close>

record GeminiService =
  gemini_config_api_key :: string

record GitHubService =
  token :: module_attr

definition GeminiService_init :: "environ \<Rightarrow> py_error + GeminiService" where
  "GeminiService_init env =
     (case GeminiConfig_init env of
        Inl e \<Rightarrow> Inl e
      | Inr api_key \<Rightarrow> Inr \<lparr>gemini_config_api_key = api_key\<rparr>)"

definition GitHubService_init :: "Settings \<Rightarrow> py_error + GitHubService" where
  "GitHubService_init instance =
     (case settings_module_getattr instance ''github_token'' of
        Inl e \<Rightarrow> Inl e
      | Inr v \<Rightarrow> Inr \<lparr>token = v\<rparr>)"

text \<open>
  \<open>ReviewController.__init__\<close>: the GitHub service, then the Gemini service, then the
  parser and the agents, whose constructors store the service.
\<close>

record ReviewController =
  github_service :: GitHubService
  gemini_service :: GeminiService

definition ReviewController_init :: "Settings \<Rightarrow> environ \<Rightarrow> py_error + ReviewController" where
  "ReviewController_init instance env =
     (case GitHubService_init instance of
        Inl e \<Rightarrow> Inl e
      | Inr gh \<Rightarrow>
          (case GeminiService_init env of
             Inl e \<Rightarrow> Inl e
           | Inr gm \<Rightarrow> Inr \<lparr>github_service = gh, gemini_service = gm\<rparr>))"

text \<open>
  The start of the process, in the order of the imports. main.py imports
  app/routes/review\_routes.py, which imports the controller, which imports
  app/services/github\_service.py. That module imports app/config/settings.py (whose
  module level gives \<open>settings_outcome\<close>) and then app/utils/diff\_parser.py, whose module
  level runs \<open>logger = setup_logger()\<close>. The module levels of the other modules call
  \<open>setup_logger()\<close> again, which does the same. Last, the module level of
  review\_routes.py runs \<open>controller = ReviewController()\<close>. An exception at any of these
  points ends the import, and with it the process, before a request is served.
\<close>

definition startup :: "py_error + Settings \<Rightarrow> environ \<Rightarrow> py_error + ReviewController" where
  "startup settings_outcome env =
     (case settings_outcome of
        Inl e \<Rightarrow> Inl e
      | Inr instance \<Rightarrow>
          (case setup_logger instance of
             Inl e \<Rightarrow> Inl e
           | Inr u \<Rightarrow> ReviewController_init instance env))"

text \<open>An environment and an instance of the settings with both credentials.\<close>

definition demo_environ :: environ where
  "demo_environ = \<lparr>GITHUB_TOKEN = Some ''ghp_token'', GEMINI_API_KEY = Some ''key''\<rparr>"

definition demo_settings :: Settings where
  "demo_settings =
     \<lparr>github_token = ''ghp_token'', gemini_api_key = ''key'', api_timeout = 30,
      log_level = ''INFO''\<rparr>"

section \<open>Properties of the parser\<close>

subsection \<open>When the parser returns\<close>

text \<open>
  Whatever \<open>\d+\<close> captures is a string of digits, every index read is guarded by the
  loop condition, and both loops end. The only statement that can raise is \<open>int\<close> on a
  captured number of more than \<open>max_str_digits\<close> digits.
\<close>

lemma re_plus_greedy_all:
  "(g, r) \<in> set (re_plus_greedy P s) \<Longrightarrow> g \<noteq> [] \<and> list_all P g"
  by (induction s arbitrary: g r) (auto split: if_splits)

lemma py_int_digits:
  "g \<noteq> [] \<Longrightarrow> list_all re_digit g \<Longrightarrow> length g \<le> max_str_digits \<Longrightarrow> \<exists>n. py_int g = Inr n"
  by (simp add: py_int_def)

lemma re_opt_count_digits:
  "(Some g, r) \<in> set (re_opt_count s) \<Longrightarrow> g \<noteq> [] \<and> list_all re_digit g"
  by (auto simp: re_opt_count_def dest: re_plus_greedy_all)

lemma int_or_one_ok:
  "(g, r) \<in> set (re_opt_count s) \<Longrightarrow>
   (case g of None \<Rightarrow> True | Some x \<Rightarrow> length x \<le> max_str_digits) \<Longrightarrow>
   \<exists>n. int_or_one g = Inr n"
  by (cases g) (auto simp: int_or_one_def dest!: re_opt_count_digits intro: py_int_digits)

lemma first_match_in_set:
  "(case ms of [] \<Rightarrow> None | m # _ \<Rightarrow> Some m) = Some x \<Longrightarrow> x \<in> set ms"
  by (cases ms) auto

lemma re_search_hunk_groups:
  assumes "re_search_hunk line = Some (g1, g2, g3, g4)" "header_in_limit line"
  shows "(\<exists>n. py_int g1 = Inr n) \<and> (\<exists>n. int_or_one g2 = Inr n) \<and>
         (\<exists>n. py_int g3 = Inr n) \<and> (\<exists>n. int_or_one g4 = Inr n)"
proof -
  from assms(1) obtain s1 s2 s3 s4 s5 s6 where
    m: "(g1, s2) \<in> set (re_plus_greedy re_digit s1)" "(g2, s3) \<in> set (re_opt_count s2)"
    "(g3, s5) \<in> set (re_plus_greedy re_digit s4)" "(g4, s6) \<in> set (re_opt_count s5)"
    unfolding re_search_hunk_def by (auto dest!: first_match_in_set)
  from assms have l: "length g1 \<le> max_str_digits"
    "case g2 of None \<Rightarrow> True | Some x \<Rightarrow> length x \<le> max_str_digits"
    "length g3 \<le> max_str_digits"
    "case g4 of None \<Rightarrow> True | Some x \<Rightarrow> length x \<le> max_str_digits"
    by (simp_all add: header_in_limit_def)
  from m(1) l(1) have "\<exists>n. py_int g1 = Inr n"
    by (auto dest!: re_plus_greedy_all intro: py_int_digits)
  moreover from m(2) l(2) have "\<exists>n. int_or_one g2 = Inr n" by (rule int_or_one_ok)
  moreover from m(3) l(3) have "\<exists>n. py_int g3 = Inr n"
    by (auto dest!: re_plus_greedy_all intro: py_int_digits)
  moreover from m(4) l(4) have "\<exists>n. int_or_one g4 = Inr n" by (rule int_or_one_ok)
  ultimately show ?thesis by blast
qed

lemma hunk_loop_returns: "\<exists>r. hunk_loop lns i hs = Inr r"
proof (induction lns i hs rule: hunk_loop.induct)
  case (1 lns i hs)
  show ?case
  proof (cases "i < length lns \<and> \<not> startswith (lns ! i) ''@@'' \<and> \<not> startswith (lns ! i) ''diff''")
    case True
    then have "hunk_loop lns i hs = hunk_loop lns (i + 1) (hunk_line_step (lns ! i) hs)"
      by (subst hunk_loop.simps) (simp add: py_getitem_def)
    moreover from True have "\<exists>r. hunk_loop lns (i + 1) (hunk_line_step (lns ! i) hs) = Inr r"
      using "1.IH" [of "lns ! i"] by (simp add: py_getitem_def)
    ultimately show ?thesis by simp
  next
    case False
    then have "hunk_loop lns i hs = Inr (i, hs)"
      by (subst hunk_loop.simps) (auto simp: py_getitem_def)
    then show ?thesis by blast
  qed
qed

lemma hunk_header_returns:
  assumes "header_in_limit line"
  shows "\<exists>j st'. hunk_header lns i line st = Inr (j, st')"
proof (cases "re_search_hunk line")
  case None
  then show ?thesis by (simp add: hunk_header_def)
next
  case (Some m)
  obtain g1 g2 g3 g4 where m: "m = (g1, g2, g3, g4)" by (cases m) auto
  from re_search_hunk_groups [OF Some [unfolded m] assms] obtain a b c d where
    conv: "py_int g1 = Inr a" "int_or_one g2 = Inr b" "py_int g3 = Inr c" "int_or_one g4 = Inr d"
    by blast
  obtain r where "hunk_loop lns (i + 1)
     (\<lparr>old_start = a, old_count = b, new_start = c, new_count = d, lines = []\<rparr>, a, c, st) = Inr r"
    using hunk_loop_returns by blast
  with Some m conv show ?thesis
    by (cases r) (simp add: hunk_header_def)
qed

lemma parse_step_returns:
  assumes "i < length lns" "startswith (lns ! i) ''@@'' \<longrightarrow> header_in_limit (lns ! i)"
  shows "\<exists>j st'. parse_step lns i st = Inr (j, st')"
proof (cases "startswith (lns ! i) ''@@''")
  case True
  with assms(2) obtain j st' where "hunk_header lns i (lns ! i) st = Inr (j, st')"
    using hunk_header_returns by blast
  with assms(1) show ?thesis
    by (simp add: parse_step_def py_getitem_def)
next
  case False
  with assms(1) show ?thesis
    by (simp add: parse_step_def py_getitem_def)
qed

lemma parse_loop_returns:
  "\<forall>l \<in> set lns. startswith l ''@@'' \<longrightarrow> header_in_limit l \<Longrightarrow>
   \<exists>st'. parse_loop lns i st = Inr st'"
proof (induction lns i st rule: parse_loop.induct)
  case (1 lns i st)
  show ?case
  proof (cases "i < length lns")
    case True
    with "1.prems" have "startswith (lns ! i) ''@@'' \<longrightarrow> header_in_limit (lns ! i)"
      by simp
    with True obtain j st1 where step: "parse_step lns i st = Inr (j, st1)"
      using parse_step_returns by blast
    with True "1.IH" [of "(j, st1)" j st1] "1.prems" show ?thesis
      by (subst parse_loop.simps) simp
  next
    case False
    then show ?thesis by (subst parse_loop.simps) simp
  qed
qed

lemma headers_in_limitI:
  "filter (\<lambda>l. startswith l ''@@'' \<and> \<not> header_in_limit l) ls = [] \<Longrightarrow>
   \<forall>l \<in> set ls. startswith l ''@@'' \<longrightarrow> header_in_limit l"
  by (auto simp: filter_empty_conv)

subsection \<open>A hunk header with a number of more than 4300 digits\<close>

text \<open>
  The first match of \<open>\d+\<close> on a run of digits that a character other than a digit ends
  is the whole run.
\<close>

lemma re_plus_greedy_run:
  assumes "P d" "\<not> P c"
  shows "\<exists>more. re_plus_greedy P (replicate (Suc n) d @ c # rest) =
           (replicate (Suc n) d, c # rest) # more"
proof (induction n)
  case 0
  from assms show ?case by simp
next
  case (Suc n)
  then obtain more where
    "re_plus_greedy P (replicate (Suc n) d @ c # rest) = (replicate (Suc n) d, c # rest) # more"
    by blast
  with assms(1) show ?case by simp
qed

lemma split_on_no_sep: "sep \<notin> set s \<Longrightarrow> split_on sep s = [s]"
  by (induction s) auto

lemma re_search_hunk_run:
  "re_search_hunk (''@@ -'' @ replicate (Suc n) CHR ''1'' @ '' +1 @@'') =
     Some (replicate (Suc n) CHR ''1'', None, ''1'', None)"
proof -
  define run where "run = replicate (Suc n) CHR ''1''"
  obtain more where
    greedy: "re_plus_greedy re_digit (run @ CHR '' '' # ''+1 @@'') =
               (run, CHR '' '' # ''+1 @@'') # more"
    unfolding run_def using re_plus_greedy_run [of re_digit "CHR ''1''" "CHR '' ''" n "''+1 @@''"]
    by (auto simp: re_digit_def)
  have "re_search_hunk (''@@ -'' @ run @ '' +1 @@'') = Some (run, None, ''1'', None)"
    by (simp add: re_search_hunk_def re_lit_def startswith_def re_opt_count_def re_digit_def
        greedy)
  then show ?thesis by (simp only: run_def)
qed

lemma parse_unified_diff_run:
  assumes "max_str_digits \<le> n"
  shows "parse_unified_diff (''@@ -'' @ replicate (Suc n) CHR ''1'' @ '' +1 @@'') =
     Inl (ValueError ''Exceeds the limit (4300 digits) for integer string conversion'')"
proof -
  define run where "run = replicate (Suc n) CHR ''1''"
  define line where "line = ''@@ -'' @ run @ '' +1 @@''"
  have m: "re_search_hunk line = Some (run, None, ''1'', None)"
    unfolding line_def run_def by (rule re_search_hunk_run)
  have "run \<noteq> []" "list_all re_digit run" "max_str_digits < length run"
    using assms by (simp_all add: run_def re_digit_def list_all_iff)
  then have "py_int run =
      Inl (ValueError ''Exceeds the limit (4300 digits) for integer string conversion'')"
    by (simp add: py_int_def)
  with m have h: "hunk_header [line] 0 line st =
      Inl (ValueError ''Exceeds the limit (4300 digits) for integer string conversion'')" for st
    by (simp add: hunk_header_def)
  have s: "startswith line ''@@''" "\<not> startswith line ''diff --git''"
    "\<not> startswith line ''new file''" "\<not> startswith line ''deleted file''"
    by (simp_all add: line_def startswith_def)
  have "newline \<notin> set line"
    by (auto simp: line_def run_def newline_def)
  then have lns: "split_on newline line = [line]" by (rule split_on_no_sep)
  have "parse_step [line] 0 init_state =
      Inl (ValueError ''Exceeds the limit (4300 digits) for integer string conversion'')"
    using s h by (simp add: parse_step_def py_getitem_def)
  then have "parse_loop [line] 0 init_state =
      Inl (ValueError ''Exceeds the limit (4300 digits) for integer string conversion'')"
    by (subst parse_loop.simps) simp
  then have "parse_unified_diff line =
      Inl (ValueError ''Exceeds the limit (4300 digits) for integer string conversion'')"
    by (simp add: parse_unified_diff_def lns)
  then show ?thesis by (simp only: line_def run_def)
qed

text \<open>
  Claim C1, as amended. For every input string in which no line that starts with \<open>@@\<close>
  carries a hunk header with a number of more than 4300 digits, \<open>parse_unified_diff\<close>
  returns a list of FilePatch records: it ends and no statement of it raises, whatever else
  the text is (empty, truncated or malformed).
\<close>

theorem parse_unified_diff_returns_within_limit:
  assumes "\<forall>l \<in> set (split_on newline diff_text). startswith l ''@@'' \<longrightarrow> header_in_limit l"
  shows "\<exists>patches. parse_unified_diff diff_text = Inr patches"
proof -
  obtain st where "parse_loop (split_on newline diff_text) 0 init_state = Inr st"
    using parse_loop_returns [OF assms] by blast
  then show ?thesis
    by (simp add: parse_unified_diff_def Let_def)
qed

theorem parse_unified_diff_returns_within_limit_witness:
  "filter (\<lambda>l. startswith l ''@@'' \<and> \<not> header_in_limit l)
     (split_on newline ''diff --git a/x b/x\<newline>@@ -12,3 +12 @@\<newline>+a\<newline>@@ -x'') = [] \<and>
   (\<exists>patches.
      parse_unified_diff ''diff --git a/x b/x\<newline>@@ -12,3 +12 @@\<newline>+a\<newline>@@ -x'' = Inr patches)"
proof -
  let ?text = "''diff --git a/x b/x\<newline>@@ -12,3 +12 @@\<newline>+a\<newline>@@ -x''"
  have f: "filter (\<lambda>l. startswith l ''@@'' \<and> \<not> header_in_limit l) (split_on newline ?text) = []"
    by code_simp
  then have h: "\<forall>l \<in> set (split_on newline ?text). startswith l ''@@'' \<longrightarrow> header_in_limit l"
    by (rule headers_in_limitI)
  have e: "\<exists>patches. parse_unified_diff ?text = Inr patches"
    using parse_unified_diff_returns_within_limit [OF h] .
  show ?thesis by (intro conjI f e)
qed

theorem parse_unified_diff_long_number_counterexample:
  "parse_unified_diff (''@@ -'' @ replicate 4301 CHR ''1'' @ '' +1 @@'') =
     Inl (ValueError ''Exceeds the limit (4300 digits) for integer string conversion'')"
proof -
  have n: "(4301 :: nat) = Suc 4300" by simp
  have "max_str_digits \<le> 4300" by (simp add: max_str_digits_def)
  from parse_unified_diff_run [OF this] show ?thesis
    by (simp only: n)
qed

subsection \<open>The scenario of the specification\<close>

text \<open>
  Claim C2. The diff of one file \<open>x.py\<close> with one hunk \<open>@@ -1,1 +1,2 @@\<close> that removes
  \<open>old\<close> and adds \<open>new1\<close> and \<open>new2\<close> parses to exactly one FilePatch, named
  \<open>x.py\<close> with status \<open>modified\<close>, whose single hunk has the four header numbers
  1, 1, 1, 2 and the lines: removed \<open>old\<close> at 1, added \<open>new1\<close> at 1, added \<open>new2\<close>
  at 2.
\<close>

theorem parse_unified_diff_scenario:
  "parse_unified_diff
     ''diff --git a/x.py b/x.py\<newline>@@ -1,1 +1,2 @@\<newline>-old\<newline>+new1\<newline>+new2\<newline>'' =
   Inr [\<lparr>filename = ''x.py'', status = ''modified'', additions = 2, deletions = 1,
         hunks = [\<lparr>old_start = 1, old_count = 1, new_start = 1, new_count = 2,
                   lines = [\<lparr>content = ''old'', change_type = ''remove'', line_number = Some 1\<rparr>,
                            \<lparr>content = ''new1'', change_type = ''add'', line_number = Some 1\<rparr>,
                            \<lparr>content = ''new2'', change_type = ''add'', line_number = Some 2\<rparr>]\<rparr>],
         language = None\<rparr>]"
  by code_simp

subsection \<open>The inner loop against the cursor model\<close>

text \<open>
  The inner loop started at index \<open>i\<close> consumes exactly \<open>hunk_body lns i\<close>, records
  the lines and moves the cursors as \<open>spec_hunk_lines\<close> does, and counts the changes
  into the current file.
\<close>

lemma hunk_line_step_eq:
  "hunk_line_step l (hunk, oc, nc, st) =
     (case spec_hunk_lines (lines hunk) oc nc [l] of
        (ls, oc', nc') \<Rightarrow> (hunk\<lparr>lines := ls\<rparr>, oc', nc', count_changes [l] st))"
  by (simp add: spec_line_kind_def)

lemma spec_hunk_lines_Cons:
  "spec_hunk_lines r oc nc (l # ls) =
     (case spec_hunk_lines r oc nc [l] of (r', oc', nc') \<Rightarrow> spec_hunk_lines r' oc' nc' ls)"
  by (simp split: line_kind.splits)

lemma count_changes_Cons: "count_changes (l # ls) st = count_changes ls (count_changes [l] st)"
  by simp

lemma hunk_body_step:
  assumes "i < length lns" "\<not> startswith (lns ! i) ''@@''" "\<not> startswith (lns ! i) ''diff''"
  shows "hunk_body lns i = lns ! i # hunk_body lns (i + 1)"
  using assms by (simp add: hunk_body_def Cons_nth_drop_Suc [symmetric])

lemma hunk_body_stop:
  assumes "\<not> (i < length lns \<and> \<not> startswith (lns ! i) ''@@'' \<and> \<not> startswith (lns ! i) ''diff'')"
  shows "hunk_body lns i = []"
proof (cases "i < length lns")
  case True
  with assms show ?thesis
    by (auto simp: hunk_body_def Cons_nth_drop_Suc [symmetric])
next
  case False
  then show ?thesis by (simp add: hunk_body_def)
qed

lemma hunk_loop_eq:
  "hunk_loop lns i (hunk, oc, nc, st) =
     (case spec_hunk_lines (lines hunk) oc nc (hunk_body lns i) of
        (ls, oc', nc') \<Rightarrow>
          Inr (i + length (hunk_body lns i), hunk\<lparr>lines := ls\<rparr>, oc', nc',
               count_changes (hunk_body lns i) st))"
proof (induction lns i "(hunk, oc, nc, st)" arbitrary: hunk oc nc st rule: hunk_loop.induct)
  case (1 lns i)
  show ?case
  proof (cases "i < length lns \<and> \<not> startswith (lns ! i) ''@@'' \<and> \<not> startswith (lns ! i) ''diff''")
    case True
    obtain ls1 oc1 nc1 where one: "spec_hunk_lines (lines hunk) oc nc [lns ! i] = (ls1, oc1, nc1)"
      by (cases "spec_hunk_lines (lines hunk) oc nc [lns ! i]") auto
    have step: "hunk_line_step (lns ! i) (hunk, oc, nc, st) =
        (hunk\<lparr>lines := ls1\<rparr>, oc1, nc1, count_changes [lns ! i] st)"
      using one by (simp only: hunk_line_step_eq) simp
    have body: "hunk_body lns i = lns ! i # hunk_body lns (i + 1)"
      using True by (simp add: hunk_body_step)
    have "hunk_loop lns i (hunk, oc, nc, st) =
        hunk_loop lns (i + 1) (hunk\<lparr>lines := ls1\<rparr>, oc1, nc1, count_changes [lns ! i] st)"
      using True step by (subst hunk_loop.simps) (simp add: py_getitem_def)
    also have "\<dots> = (case spec_hunk_lines ls1 oc1 nc1 (hunk_body lns (i + 1)) of
        (ls, oc', nc') \<Rightarrow>
          Inr (i + 1 + length (hunk_body lns (i + 1)), hunk\<lparr>lines := ls\<rparr>, oc', nc',
               count_changes (hunk_body lns (i + 1)) (count_changes [lns ! i] st)))"
      using "1.hyps" [of "lns ! i" "hunk\<lparr>lines := ls1\<rparr>" oc1 nc1 "count_changes [lns ! i] st"] True step
      by (simp add: py_getitem_def)
    also have "\<dots> = (case spec_hunk_lines (lines hunk) oc nc (hunk_body lns i) of
        (ls, oc', nc') \<Rightarrow>
          Inr (i + length (hunk_body lns i), hunk\<lparr>lines := ls\<rparr>, oc', nc',
               count_changes (hunk_body lns i) st))"
    proof -
      have "spec_hunk_lines (lines hunk) oc nc (lns ! i # hunk_body lns (i + 1)) =
          spec_hunk_lines ls1 oc1 nc1 (hunk_body lns (i + 1))"
        by (simp only: spec_hunk_lines_Cons [of _ _ _ "lns ! i" "hunk_body lns (i + 1)"] one prod.case)
      moreover have "count_changes (lns ! i # hunk_body lns (i + 1)) st =
          count_changes (hunk_body lns (i + 1)) (count_changes [lns ! i] st)"
        by (rule count_changes_Cons)
      ultimately show ?thesis
        unfolding body by (simp only: list.size) simp
    qed
    finally show ?thesis .
  next
    case False
    then have "hunk_body lns i = []" by (rule hunk_body_stop)
    moreover from False have "hunk_loop lns i (hunk, oc, nc, st) = Inr (i, hunk, oc, nc, st)"
      by (subst hunk_loop.simps) (auto simp: py_getitem_def)
    ultimately show ?thesis by simp
  qed
qed

subsection \<open>The running totals agree with the recorded lines\<close>

lemma length_concat_if:
  "length (concat (map (\<lambda>x. if P x then [x] else []) xs)) = length (filter P xs)"
  by (induction xs) auto

lemma count_type_snoc: "count_type t (hs @ [h]) = count_type t hs + line_count t (lines h)"
  by (simp add: count_type_def line_count_def length_concat_if)

lemma count_type_Nil [simp]: "count_type t [] = 0"
  by (simp add: count_type_def)

lemma line_count_Nil [simp]: "line_count t [] = 0"
  by (simp add: line_count_def)

lemma line_count_snoc:
  "line_count t (ls @ [l]) = line_count t ls + (if change_type l = t then 1 else 0)"
  by (simp add: line_count_def)

lemma store_inv_init: "store_inv [] init_state"
  by (simp add: store_inv_def init_state_def)

lemma store_inv_flush: "store_inv [] st \<Longrightarrow> store_inv [] (flush_file st)"
  by (auto simp: store_inv_def flush_file_def nth_list_update split: option.splits)

lemma store_inv_new_file:
  assumes "store_inv [] st"
  shows "store_inv []
     (st\<lparr>dicts := dicts st @
            [\<lparr>d_filename = name, d_status = s, d_additions = 0, d_deletions = 0,
              d_hunks = length (lists st)\<rparr>],
         lists := lists st @ [[], []],
         current_file := Some (length (dicts st)),
         current_hunks := Suc (length (lists st))\<rparr>)"
proof -
  from assms have cur: "current_hunks st < length (lists st)"
    by (simp add: store_inv_def)
  have old: "a < length (dicts st) \<and> d_hunks (dicts st ! a) < length (lists st) \<and>
      d_additions (dicts st ! a) = count_type ''add'' (lists st ! d_hunks (dicts st ! a)) \<and>
      d_deletions (dicts st ! a) = count_type ''remove'' (lists st ! d_hunks (dicts st ! a))"
    if "a \<in> set (files st)" for a
  proof (cases "current_file st = Some a")
    case True
    with assms that cur show ?thesis by (auto simp: store_inv_def)
  next
    case False
    with assms that show ?thesis by (auto simp: store_inv_def)
  qed
  show ?thesis
    unfolding store_inv_def by (auto simp: nth_append dest!: old)
qed

lemma store_inv_file_header: "store_inv [] st \<Longrightarrow> store_inv [] (file_header line st)"
proof -
  assume "store_inv [] st"
  then have inv: "store_inv [] (flush_file st)" by (rule store_inv_flush)
  show ?thesis
  proof (cases "re_search_filename line")
    case None
    with inv show ?thesis by (simp add: file_header_def)
  next
    case (Some m)
    obtain g1 g2 where "m = (g1, g2)" by (cases m) auto
    with Some store_inv_new_file [OF inv] show ?thesis
      by (simp add: file_header_def Let_def)
  qed
qed

lemma store_inv_set_status: "store_inv p st \<Longrightarrow> store_inv p (set_status s st)"
  by (auto simp: store_inv_def set_status_def nth_list_update split: option.splits)

lemma store_inv_addition:
  "store_inv p st \<Longrightarrow> change_type l = ''add'' \<Longrightarrow> store_inv (p @ [l]) (count_addition st)"
  by (auto simp: store_inv_def count_addition_def nth_list_update line_count_snoc split: option.splits)

lemma store_inv_deletion:
  "store_inv p st \<Longrightarrow> change_type l = ''remove'' \<Longrightarrow> store_inv (p @ [l]) (count_deletion st)"
  by (auto simp: store_inv_def count_deletion_def nth_list_update line_count_snoc split: option.splits)

lemma store_inv_context:
  "store_inv p st \<Longrightarrow> change_type l = ''context'' \<Longrightarrow> store_inv (p @ [l]) st"
  by (auto simp: store_inv_def line_count_snoc)

lemma store_inv_count_changes:
  "store_inv p st \<Longrightarrow>
   store_inv (fst (spec_hunk_lines p oc nc body)) (count_changes body st)"
proof (induction body arbitrary: p oc nc st)
  case Nil
  then show ?case by simp
next
  case (Cons l body)
  show ?case
  proof (cases "spec_line_kind l")
    case Added
    with Cons.IH [OF store_inv_addition [OF Cons.prems]] show ?thesis by simp
  next
    case Removed
    with Cons.IH [OF store_inv_deletion [OF Cons.prems]] show ?thesis by simp
  next
    case Context
    with Cons.IH [OF store_inv_context [OF Cons.prems]] show ?thesis by simp
  next
    case Dropped
    with Cons.IH [OF Cons.prems] show ?thesis by simp
  qed
qed

lemma store_inv_append_hunk:
  "store_inv (lines h) st \<Longrightarrow> store_inv [] (append_hunk h st)"
  by (auto simp: store_inv_def append_hunk_def nth_list_update count_type_snoc)

lemma hunk_header_eq:
  assumes "re_search_hunk line = Some (g1, g2, g3, g4)"
    and "py_int g1 = Inr a" and "int_or_one g2 = Inr b"
    and "py_int g3 = Inr c" and "int_or_one g4 = Inr d"
  shows "hunk_header lns i line st =
     Inr (i + length (hunk_body lns (i + 1)),
          append_hunk \<lparr>old_start = a, old_count = b, new_start = c, new_count = d,
                        lines = fst (spec_hunk_lines [] a c (hunk_body lns (i + 1)))\<rparr>
            (count_changes (hunk_body lns (i + 1)) st))"
  using assms by (simp add: hunk_header_def hunk_loop_eq split: prod.splits)

lemma hunk_header_cases:
  assumes "hunk_header lns i line st = Inr (j, st')"
  obtains "re_search_hunk line = None" "j = i" "st' = st"
  | g1 g2 g3 g4 a b c d where "re_search_hunk line = Some (g1, g2, g3, g4)"
      "py_int g1 = Inr a" "int_or_one g2 = Inr b" "py_int g3 = Inr c" "int_or_one g4 = Inr d"
      "j = i + length (hunk_body lns (i + 1))"
      "st' = append_hunk \<lparr>old_start = a, old_count = b, new_start = c, new_count = d,
                        lines = fst (spec_hunk_lines [] a c (hunk_body lns (i + 1)))\<rparr>
            (count_changes (hunk_body lns (i + 1)) st)"
proof (cases "re_search_hunk line")
  case None
  with assms that(1) show ?thesis by (simp add: hunk_header_def)
next
  case (Some m)
  obtain g1 g2 g3 g4 where m: "m = (g1, g2, g3, g4)" by (cases m) auto
  from assms Some m obtain a b c d where
    conv: "py_int g1 = Inr a" "int_or_one g2 = Inr b" "py_int g3 = Inr c" "int_or_one g4 = Inr d"
    by (auto simp: hunk_header_def split: sum.splits)
  from hunk_header_eq [OF Some [unfolded m] conv, of lns i st] assms
  show ?thesis using that(2) [OF Some [unfolded m] conv] by simp
qed

lemma store_inv_hunk_header:
  assumes "store_inv [] st" "hunk_header lns i line st = Inr (j, st')"
  shows "store_inv [] st'"
  using assms(2)
proof (cases rule: hunk_header_cases)
  case 1
  with assms(1) show ?thesis by simp
next
  case (2 g1 g2 g3 g4 a b c d)
  have "store_inv (fst (spec_hunk_lines [] a c (hunk_body lns (i + 1))))
          (count_changes (hunk_body lns (i + 1)) st)"
    using assms(1) by (rule store_inv_count_changes)
  then show ?thesis
    unfolding 2(7) by (intro store_inv_append_hunk) simp
qed

lemma store_inv_parse_step:
  assumes "store_inv [] st" "parse_step lns i st = Inr (j, st')"
  shows "store_inv [] st'"
  using assms
  by (auto simp: parse_step_def split: sum.splits if_splits
      intro: store_inv_file_header store_inv_set_status store_inv_hunk_header)

lemma store_inv_parse_loop:
  "store_inv [] st \<Longrightarrow> parse_loop lns i st = Inr st' \<Longrightarrow> store_inv [] st'"
proof (induction lns i st rule: parse_loop.induct)
  case (1 lns i st)
  show ?case
  proof (cases "i < length lns")
    case True
    with "1.prems"(2) obtain j st1 where
      step: "parse_step lns i st = Inr (j, st1)" and rest: "parse_loop lns j st1 = Inr st'"
      by (subst (asm) parse_loop.simps) (auto split: sum.splits)
    from "1.IH" [OF True step refl store_inv_parse_step [OF "1.prems"(1) step] rest]
    show ?thesis .
  next
    case False
    with "1.prems" show ?thesis by (subst (asm) parse_loop.simps) simp
  qed
qed

lemma store_inv_counts:
  assumes "store_inv [] st" "a \<in> set (files st)"
  shows "d_additions (dicts st ! a) = count_type ''add'' (lists st ! d_hunks (dicts st ! a)) \<and>
         d_deletions (dicts st ! a) = count_type ''remove'' (lists st ! d_hunks (dicts st ! a))"
proof (cases "current_file st = Some a")
  case True
  with assms show ?thesis by (auto simp: store_inv_def)
next
  case False
  with assms show ?thesis by (auto simp: store_inv_def)
qed

text \<open>
  Claim C10. For every FilePatch the parser returns, \<open>additions\<close> is the number of
  lines with change type \<open>add\<close> in all its hunks and \<open>deletions\<close> the number with
  change type \<open>remove\<close>: the counts the summary stage recomputes from the hunks agree
  with the totals of the parser.
\<close>

theorem parser_totals_agree_with_hunks:
  assumes "parse_unified_diff diff_text = Inr patches"
  shows "\<forall>p \<in> set patches.
           additions p = summary_additions p \<and> deletions p = summary_deletions p"
proof -
  from assms obtain st where
    loop: "parse_loop (split_on newline diff_text) 0 init_state = Inr st" and
    patches: "patches = map (to_FilePatch (flush_file st)) (files (flush_file st))"
    by (auto simp: parse_unified_diff_def Let_def split: sum.splits)
  have "store_inv [] (flush_file st)"
    using store_inv_parse_loop [OF store_inv_init loop] by (rule store_inv_flush)
  from store_inv_counts [OF this] show ?thesis
    unfolding patches
    by (simp add: to_FilePatch_def summary_additions_def summary_deletions_def)
qed

theorem parser_totals_agree_with_hunks_witness:
  "parse_unified_diff
     ''diff --git a/a.py b/a.py\<newline>@@ -3 +3,2 @@\<newline> ctx\<newline>+new\<newline>diff --git\<newline>@@ -7 +8 @@\<newline>-gone'' =
   Inr [\<lparr>filename = ''a.py'', status = ''modified'', additions = 1, deletions = 1,
         hunks = [\<lparr>old_start = 3, old_count = 1, new_start = 3, new_count = 2,
                   lines = [\<lparr>content = ''ctx'', change_type = ''context'', line_number = Some 3\<rparr>,
                            \<lparr>content = ''new'', change_type = ''add'', line_number = Some 4\<rparr>]\<rparr>,
                  \<lparr>old_start = 7, old_count = 1, new_start = 8, new_count = 1,
                   lines = [\<lparr>content = ''gone'', change_type = ''remove'', line_number = Some 7\<rparr>]\<rparr>],
         language = None\<rparr>,
        \<lparr>filename = ''a.py'', status = ''modified'', additions = 1, deletions = 1,
         hunks = [\<lparr>old_start = 3, old_count = 1, new_start = 3, new_count = 2,
                   lines = [\<lparr>content = ''ctx'', change_type = ''context'', line_number = Some 3\<rparr>,
                            \<lparr>content = ''new'', change_type = ''add'', line_number = Some 4\<rparr>]\<rparr>,
                  \<lparr>old_start = 7, old_count = 1, new_start = 8, new_count = 1,
                   lines = [\<lparr>content = ''gone'', change_type = ''remove'', line_number = Some 7\<rparr>]\<rparr>],
         language = None\<rparr>] \<and>
   summary_additions
     \<lparr>filename = ''a.py'', status = ''modified'', additions = 1, deletions = 1,
      hunks = [\<lparr>old_start = 3, old_count = 1, new_start = 3, new_count = 2,
                lines = [\<lparr>content = ''ctx'', change_type = ''context'', line_number = Some 3\<rparr>,
                         \<lparr>content = ''new'', change_type = ''add'', line_number = Some 4\<rparr>]\<rparr>,
               \<lparr>old_start = 7, old_count = 1, new_start = 8, new_count = 1,
                lines = [\<lparr>content = ''gone'', change_type = ''remove'', line_number = Some 7\<rparr>]\<rparr>],
      language = None\<rparr> = 1 \<and>
   summary_deletions
     \<lparr>filename = ''a.py'', status = ''modified'', additions = 1, deletions = 1,
      hunks = [\<lparr>old_start = 3, old_count = 1, new_start = 3, new_count = 2,
                lines = [\<lparr>content = ''ctx'', change_type = ''context'', line_number = Some 3\<rparr>,
                         \<lparr>content = ''new'', change_type = ''add'', line_number = Some 4\<rparr>]\<rparr>,
               \<lparr>old_start = 7, old_count = 1, new_start = 8, new_count = 1,
                lines = [\<lparr>content = ''gone'', change_type = ''remove'', line_number = Some 7\<rparr>]\<rparr>],
      language = None\<rparr> = 1"
proof -
  let ?text = "''diff --git a/a.py b/a.py\<newline>@@ -3 +3,2 @@\<newline> ctx\<newline>+new\<newline>diff --git\<newline>@@ -7 +8 @@\<newline>-gone''"
  let ?P = "\<lparr>filename = ''a.py'', status = ''modified'', additions = 1, deletions = 1,
         hunks = [\<lparr>old_start = 3, old_count = 1, new_start = 3, new_count = 2,
                   lines = [\<lparr>content = ''ctx'', change_type = ''context'', line_number = Some 3\<rparr>,
                            \<lparr>content = ''new'', change_type = ''add'', line_number = Some 4\<rparr>]\<rparr>,
                  \<lparr>old_start = 7, old_count = 1, new_start = 8, new_count = 1,
                   lines = [\<lparr>content = ''gone'', change_type = ''remove'', line_number = Some 7\<rparr>]\<rparr>],
         language = None\<rparr>"
  have h: "parse_unified_diff ?text = Inr [?P, ?P]" by code_simp
  from parser_totals_agree_with_hunks [OF h]
  have "additions ?P = summary_additions ?P \<and> deletions ?P = summary_deletions ?P"
    by simp
  then have "summary_additions ?P = 1" "summary_deletions ?P = 1"
    by simp_all
  with h show ?thesis by (intro conjI)
qed

subsection \<open>The cursors of a hunk\<close>

text \<open>
  Claim C3. The inner loop keeps two cursors. Started with any hunk and cursors, it
  records the lines and moves the cursors as the cursor model does (an added line at the
  new cursor, which alone moves; a removed line at the old cursor, which alone moves; a
  context line at the new cursor, both moving). A hunk header that matches starts the loop
  with an empty hunk and the cursors at the header's old and new start, and appends the
  hunk to \<open>current_hunks\<close>.
\<close>

theorem hunk_cursors:
  "hunk_loop lns i (hunk, old_cursor, new_cursor, st) =
     (case spec_hunk_lines (lines hunk) old_cursor new_cursor (hunk_body lns i) of
        (ls, old_cursor', new_cursor') \<Rightarrow>
          Inr (i + length (hunk_body lns i), hunk\<lparr>lines := ls\<rparr>, old_cursor', new_cursor',
               count_changes (hunk_body lns i) st)) \<and>
   (re_search_hunk line = Some (g1, g2, g3, g4) \<longrightarrow>
    py_int g1 = Inr a \<longrightarrow> int_or_one g2 = Inr b \<longrightarrow>
    py_int g3 = Inr c \<longrightarrow> int_or_one g4 = Inr d \<longrightarrow>
    hunk_header lns i line st =
      Inr (i + length (hunk_body lns (i + 1)),
           append_hunk \<lparr>old_start = a, old_count = b, new_start = c, new_count = d,
                         lines = fst (spec_hunk_lines [] a c (hunk_body lns (i + 1)))\<rparr>
             (count_changes (hunk_body lns (i + 1)) st)))"
  using hunk_loop_eq [of lns i hunk old_cursor new_cursor st]
    hunk_header_eq [of line g1 g2 g3 g4 a b c d lns i st]
  by simp

theorem hunk_cursors_witness:
  "re_search_hunk ''@@ -4,2 +5 @@ def f'' = Some (''4'', Some ''2'', ''5'', None) \<and>
   py_int ''4'' = Inr 4 \<and> int_or_one (Some ''2'') = Inr 2 \<and>
   py_int ''5'' = Inr 5 \<and> int_or_one None = Inr 1 \<and>
   hunk_loop
     [''@@ -4,2 +5 @@ def f'', ''-old'', ''+new1'', '' ctx'', ''+++ b/x'', ''-gone'', ''@@ -9 +9 @@'']
     1 (\<lparr>old_start = 4, old_count = 2, new_start = 5, new_count = 1, lines = []\<rparr>, 4, 5, init_state) =
   Inr (6, \<lparr>old_start = 4, old_count = 2, new_start = 5, new_count = 1,
             lines = [\<lparr>content = ''old'', change_type = ''remove'', line_number = Some 4\<rparr>,
                      \<lparr>content = ''new1'', change_type = ''add'', line_number = Some 5\<rparr>,
                      \<lparr>content = ''ctx'', change_type = ''context'', line_number = Some 6\<rparr>,
                      \<lparr>content = ''gone'', change_type = ''remove'', line_number = Some 6\<rparr>]\<rparr>,
        7, 7, init_state) \<and>
   hunk_header
     [''@@ -4,2 +5 @@ def f'', ''-old'', ''+new1'', '' ctx'', ''+++ b/x'', ''-gone'', ''@@ -9 +9 @@'']
     0 ''@@ -4,2 +5 @@ def f'' init_state =
   Inr (5, \<lparr>dicts = [],
            lists = [[\<lparr>old_start = 4, old_count = 2, new_start = 5, new_count = 1,
                       lines = [\<lparr>content = ''old'', change_type = ''remove'', line_number = Some 4\<rparr>,
                                \<lparr>content = ''new1'', change_type = ''add'', line_number = Some 5\<rparr>,
                                \<lparr>content = ''ctx'', change_type = ''context'', line_number = Some 6\<rparr>,
                                \<lparr>content = ''gone'', change_type = ''remove'', line_number = Some 6\<rparr>]\<rparr>]],
            files = [], current_file = None, current_hunks = 0\<rparr>)"
proof -
  let ?line = "''@@ -4,2 +5 @@ def f''"
  let ?lns = "[?line, ''-old'', ''+new1'', '' ctx'', ''+++ b/x'', ''-gone'', ''@@ -9 +9 @@'']"
  have h1: "re_search_hunk ?line = Some (''4'', Some ''2'', ''5'', None)" by code_simp
  have h2: "py_int ''4'' = Inr 4" by code_simp
  have h3: "int_or_one (Some ''2'') = Inr 2" by code_simp
  have h4: "py_int ''5'' = Inr 5" by code_simp
  have h5: "int_or_one None = Inr 1" by code_simp
  let ?hunk = "\<lparr>old_start = 4, old_count = 2, new_start = 5, new_count = 1, lines = []\<rparr>"
  note inst = hunk_cursors [of ?lns _ ?hunk 4 5 init_state ?line "''4''" "Some ''2''" "''5''" None 4 2 5 1]
  have "hunk_loop ?lns 1 (?hunk, 4, 5, init_state) =
      (case spec_hunk_lines (lines ?hunk) 4 5 (hunk_body ?lns 1) of
        (ls, old_cursor', new_cursor') \<Rightarrow>
          Inr (1 + length (hunk_body ?lns 1), ?hunk\<lparr>lines := ls\<rparr>, old_cursor', new_cursor',
               count_changes (hunk_body ?lns 1) init_state))"
    using inst [of 1] by blast
  also have "\<dots> = Inr (6, \<lparr>old_start = 4, old_count = 2, new_start = 5, new_count = 1,
             lines = [\<lparr>content = ''old'', change_type = ''remove'', line_number = Some 4\<rparr>,
                      \<lparr>content = ''new1'', change_type = ''add'', line_number = Some 5\<rparr>,
                      \<lparr>content = ''ctx'', change_type = ''context'', line_number = Some 6\<rparr>,
                      \<lparr>content = ''gone'', change_type = ''remove'', line_number = Some 6\<rparr>]\<rparr>,
        7, 7, init_state)"
    by code_simp
  finally have loop: "hunk_loop ?lns 1 (?hunk, 4, 5, init_state) =
      Inr (6, \<lparr>old_start = 4, old_count = 2, new_start = 5, new_count = 1,
             lines = [\<lparr>content = ''old'', change_type = ''remove'', line_number = Some 4\<rparr>,
                      \<lparr>content = ''new1'', change_type = ''add'', line_number = Some 5\<rparr>,
                      \<lparr>content = ''ctx'', change_type = ''context'', line_number = Some 6\<rparr>,
                      \<lparr>content = ''gone'', change_type = ''remove'', line_number = Some 6\<rparr>]\<rparr>,
        7, 7, init_state)" .
  have "hunk_header ?lns 0 ?line init_state =
      Inr (0 + length (hunk_body ?lns (0 + 1)),
           append_hunk \<lparr>old_start = 4, old_count = 2, new_start = 5, new_count = 1,
                         lines = fst (spec_hunk_lines [] 4 5 (hunk_body ?lns (0 + 1)))\<rparr>
             (count_changes (hunk_body ?lns (0 + 1)) init_state))"
    using inst [of 0] h1 h2 h3 h4 h5 by blast
  also have "\<dots> = Inr (5, \<lparr>dicts = [],
            lists = [[\<lparr>old_start = 4, old_count = 2, new_start = 5, new_count = 1,
                       lines = [\<lparr>content = ''old'', change_type = ''remove'', line_number = Some 4\<rparr>,
                                \<lparr>content = ''new1'', change_type = ''add'', line_number = Some 5\<rparr>,
                                \<lparr>content = ''ctx'', change_type = ''context'', line_number = Some 6\<rparr>,
                                \<lparr>content = ''gone'', change_type = ''remove'', line_number = Some 6\<rparr>]\<rparr>]],
            files = [], current_file = None, current_hunks = 0\<rparr>)"
    by code_simp
  finally show ?thesis using h1 h2 h3 h4 h5 loop by simp
qed


subsection \<open>The number of records\<close>

lemma is_marker_diff: "is_marker l \<Longrightarrow> startswith l ''diff''"
  by (auto simp: is_marker_def startswith_def dest: arg_cong [where f = "take 4"])

lemma n_records_dropWhile:
  "(\<And>l. P l \<Longrightarrow> \<not> is_marker l) \<Longrightarrow> n_records c (dropWhile P ls) = n_records c ls"
  by (induction ls) auto

lemma drop_hunk_body:
  "drop (i + length (hunk_body lns i)) lns =
   dropWhile (\<lambda>l. \<not> startswith l ''@@'' \<and> \<not> startswith l ''diff'') (drop i lns)"
  unfolding hunk_body_def
  by (metis (no_types, lifting) add.commute drop_drop dropWhile_eq_drop)

lemma n_records_skip_hunk:
  "n_records c (drop (i + length (hunk_body lns i)) lns) = n_records c (drop i lns)"
  unfolding drop_hunk_body
  by (rule n_records_dropWhile) (auto dest: is_marker_diff)

lemma nth_list_update_total:
  "xs[i := x] ! j = (if i = j \<and> i < length xs then x else xs ! j)"
  by (cases "i < length xs") (auto simp: nth_list_update list_update_beyond)

lemma count_changes_frame:
  "files (count_changes body st) = files st \<and>
   current_file (count_changes body st) = current_file st \<and>
   current_hunks (count_changes body st) = current_hunks st \<and>
   lists (count_changes body st) = lists st \<and>
   length (dicts (count_changes body st)) = length (dicts st) \<and>
   (\<forall>a. d_filename (dicts (count_changes body st) ! a) = d_filename (dicts st ! a))"
proof (induction body arbitrary: st)
  case Nil
  show ?case by simp
next
  case (Cons l body)
  have one: "files (count_changes [l] st) = files st \<and>
      current_file (count_changes [l] st) = current_file st \<and>
      current_hunks (count_changes [l] st) = current_hunks st \<and>
      lists (count_changes [l] st) = lists st \<and>
      length (dicts (count_changes [l] st)) = length (dicts st) \<and>
      (\<forall>a. d_filename (dicts (count_changes [l] st) ! a) = d_filename (dicts st ! a))"
    by (auto simp: count_addition_def count_deletion_def nth_list_update_total
        split: line_kind.splits option.splits)
  show ?case
    using Cons.IH [of "count_changes [l] st"] one
    by (simp only: count_changes_Cons [of l body st]) simp
qed

lemma flush_file_frame:
  "files (flush_file st) = files st @ (case current_file st of None \<Rightarrow> [] | Some a \<Rightarrow> [a]) \<and>
   current_file (flush_file st) = current_file st \<and>
   length (dicts (flush_file st)) = length (dicts st)"
  by (simp add: flush_file_def split: option.splits)

lemma parse_step_n_records:
  assumes "parse_step lns i st = Inr (j, st1)" "i < length lns"
  shows "length (files st1) + n_records (current_file st1 \<noteq> None) (drop j lns) =
         length (files st) + n_records (current_file st \<noteq> None) (drop i lns)"
proof -
  let ?line = "lns ! i"
  have drop: "drop i lns = ?line # drop (i + 1) lns"
    using assms(2) by (simp add: Cons_nth_drop_Suc)
  consider (marker) "is_marker ?line"
    | (status) s where "\<not> is_marker ?line" "j = i + 1" "st1 = set_status s st"
    | (hunk) "\<not> is_marker ?line" "startswith ?line ''@@''"
        "hunk_header lns i ?line st = Inr (j - 1, st1)" "0 < j"
    | (other) "\<not> is_marker ?line" "j = i + 1" "st1 = st"
    using assms
    by (auto simp: parse_step_def py_getitem_def is_marker_def split: if_splits sum.splits)
  then show ?thesis
  proof cases
    case marker
    with assms have st1: "j = i + 1" "st1 = file_header ?line st"
      by (auto simp: parse_step_def py_getitem_def is_marker_def)
    show ?thesis
      unfolding st1 drop using marker
      by (cases "re_search_filename ?line")
         (auto simp: file_header_def Let_def flush_file_frame split: option.splits)
  next
    case status
    then show ?thesis
      unfolding drop by (auto simp: set_status_def split: option.splits)
  next
    case hunk
    from hunk(3) show ?thesis
    proof (cases rule: hunk_header_cases)
      case 1
      with hunk show ?thesis unfolding drop by auto
    next
      case (2 g1 g2 g3 g4 a b c d)
      then have j: "j = (i + 1) + length (hunk_body lns (i + 1))"
        using hunk(4) by simp
      show ?thesis
        unfolding j 2(7) n_records_skip_hunk drop using hunk(1)
        by (simp add: append_hunk_def count_changes_frame)
    qed
  next
    case other
    then show ?thesis unfolding drop by simp
  qed
qed

lemma parse_loop_n_records:
  "parse_loop lns i st = Inr st' \<Longrightarrow>
   length (files (flush_file st')) =
     length (files st) + n_records (current_file st \<noteq> None) (drop i lns)"
proof (induction lns i st rule: parse_loop.induct)
  case (1 lns i st)
  show ?case
  proof (cases "i < length lns")
    case True
    with "1.prems" obtain j st1 where
      step: "parse_step lns i st = Inr (j, st1)" and rest: "parse_loop lns j st1 = Inr st'"
      by (subst (asm) parse_loop.simps) (auto split: sum.splits)
    from "1.IH" [OF True step refl rest] parse_step_n_records [OF step True]
    show ?thesis by simp
  next
    case False
    with "1.prems" have "st' = st" by (subst (asm) parse_loop.simps) simp
    with False show ?thesis
      by (simp add: flush_file_frame split: option.splits)
  qed
qed

lemma n_records_all_match:
  assumes "\<forall>l \<in> set ls. is_marker l \<longrightarrow> re_search_filename l \<noteq> None"
  shows "n_records c ls = (if c then 1 else 0) + length (filter is_marker ls)"
  using assms
proof (induction ls arbitrary: c)
  case Nil
  show ?case by simp
next
  case (Cons l ls)
  then show ?case by (cases "is_marker l") auto
qed

lemma no_unmatched_markerI:
  "filter (\<lambda>l. is_marker l \<and> re_search_filename l = None) ls = [] \<Longrightarrow>
   \<forall>l \<in> set ls. is_marker l \<longrightarrow> re_search_filename l \<noteq> None"
  by (auto simp: filter_empty_conv)

text \<open>
  Claim C4, as amended. When the header of every marker line (a line that starts with
  \<open>diff --git\<close>) matches the filename pattern and no line that starts with \<open>@@\<close>
  carries a hunk header with a number of more than 4300 digits, the parser returns exactly
  as many records as there are marker lines, wherever the input ends.
\<close>

theorem one_record_per_matching_marker:
  assumes "\<forall>l \<in> set (split_on newline diff_text). is_marker l \<longrightarrow> re_search_filename l \<noteq> None"
    and "\<forall>l \<in> set (split_on newline diff_text). startswith l ''@@'' \<longrightarrow> header_in_limit l"
  shows "\<exists>patches. parse_unified_diff diff_text = Inr patches \<and>
           length patches = length (filter is_marker (split_on newline diff_text))"
proof -
  obtain st where loop: "parse_loop (split_on newline diff_text) 0 init_state = Inr st"
    using parse_loop_returns [OF assms(2)] by blast
  from parse_loop_n_records [OF this] n_records_all_match [OF assms(1), of False]
  have "length (files (flush_file st)) = length (filter is_marker (split_on newline diff_text))"
    by (simp add: init_state_def)
  with loop show ?thesis
    by (simp add: parse_unified_diff_def Let_def)
qed

theorem one_record_per_matching_marker_witness:
  "filter (\<lambda>l. is_marker l \<and> re_search_filename l = None)
     (split_on newline ''diff --git a/a b/a\<newline>diff --git a/b b/b\<newline>@@ -1,2 +1,2 @@\<newline>+x'') = [] \<and>
   filter (\<lambda>l. startswith l ''@@'' \<and> \<not> header_in_limit l)
     (split_on newline ''diff --git a/a b/a\<newline>diff --git a/b b/b\<newline>@@ -1,2 +1,2 @@\<newline>+x'') = [] \<and>
   length (filter is_marker
     (split_on newline ''diff --git a/a b/a\<newline>diff --git a/b b/b\<newline>@@ -1,2 +1,2 @@\<newline>+x'')) = 2 \<and>
   (\<exists>patches.
      parse_unified_diff ''diff --git a/a b/a\<newline>diff --git a/b b/b\<newline>@@ -1,2 +1,2 @@\<newline>+x'' =
        Inr patches \<and>
      length patches = 2)"
proof -
  let ?text = "''diff --git a/a b/a\<newline>diff --git a/b b/b\<newline>@@ -1,2 +1,2 @@\<newline>+x''"
  have f: "filter (\<lambda>l. is_marker l \<and> re_search_filename l = None) (split_on newline ?text) = []"
    by code_simp
  then have h: "\<forall>l \<in> set (split_on newline ?text). is_marker l \<longrightarrow> re_search_filename l \<noteq> None"
    by (rule no_unmatched_markerI)
  have f2: "filter (\<lambda>l. startswith l ''@@'' \<and> \<not> header_in_limit l) (split_on newline ?text) = []"
    by code_simp
  then have h2: "\<forall>l \<in> set (split_on newline ?text). startswith l ''@@'' \<longrightarrow> header_in_limit l"
    by (rule headers_in_limitI)
  have n: "length (filter is_marker (split_on newline ?text)) = 2"
    by code_simp
  have e: "\<exists>patches. parse_unified_diff ?text = Inr patches \<and> length patches = 2"
    using one_record_per_matching_marker [OF h h2] unfolding n .
  show ?thesis by (intro conjI f f2 n e)
qed

theorem unmatched_first_marker_counterexample:
  "length (filter is_marker (split_on newline ''diff --git'')) = 1 \<and>
   parse_unified_diff ''diff --git'' = Inr []"
  by code_simp

subsection \<open>A marker line whose header does not match\<close>

lemma names_inv_init: "names_inv lns init_state"
  by (simp add: names_inv_def init_state_def)

lemma names_inv_flush: "names_inv lns st \<Longrightarrow> names_inv lns (flush_file st)"
  by (auto simp: names_inv_def flush_file_def nth_list_update_total split: option.splits)

lemma names_inv_file_header:
  assumes "names_inv lns st" "line \<in> set lns" "is_marker line"
  shows "names_inv lns (file_header line st)"
proof -
  from assms(1) have inv: "names_inv lns (flush_file st)" by (rule names_inv_flush)
  show ?thesis
  proof (cases "re_search_filename line")
    case None
    with inv show ?thesis by (simp add: file_header_def)
  next
    case (Some m)
    obtain g1 g2 where m: "m = (g1, g2)" by (cases m) auto
    have "\<exists>l \<in> set lns. is_marker l \<and> (\<exists>g. re_search_filename l = Some (g, g2))"
      using assms(2,3) Some m by blast
    with inv Some m show ?thesis
      unfolding file_header_def Let_def names_inv_def
      by (auto simp: nth_append less_Suc_eq)
  qed
qed

lemma names_inv_set_status: "names_inv lns st \<Longrightarrow> names_inv lns (set_status s st)"
  by (auto simp: names_inv_def set_status_def nth_list_update_total split: option.splits)

lemma names_inv_count_changes: "names_inv lns st \<Longrightarrow> names_inv lns (count_changes body st)"
  by (simp add: names_inv_def count_changes_frame)

lemma names_inv_append_hunk: "names_inv lns st \<Longrightarrow> names_inv lns (append_hunk h st)"
  by (simp add: names_inv_def append_hunk_def)

lemma names_inv_parse_step:
  assumes "names_inv lns st" "parse_step lns i st = Inr (j, st1)" "i < length lns"
  shows "names_inv lns st1"
proof -
  let ?line = "lns ! i"
  consider (marker) "is_marker ?line" "st1 = file_header ?line st"
    | (status) s where "st1 = set_status s st"
    | (hunk) "hunk_header lns i ?line st = Inr (j - 1, st1)"
    | (other) "st1 = st"
    using assms(2,3)
    by (auto simp: parse_step_def py_getitem_def is_marker_def split: if_splits sum.splits)
  then show ?thesis
  proof cases
    case marker
    with assms show ?thesis by (auto intro: names_inv_file_header)
  next
    case status
    with assms show ?thesis by (auto intro: names_inv_set_status)
  next
    case hunk
    then show ?thesis
      using assms(1)
      by (cases rule: hunk_header_cases)
         (auto intro: names_inv_append_hunk names_inv_count_changes)
  next
    case other
    with assms show ?thesis by simp
  qed
qed

lemma names_inv_parse_loop:
  "names_inv lns st \<Longrightarrow> parse_loop lns i st = Inr st' \<Longrightarrow> names_inv lns st'"
proof (induction lns i st rule: parse_loop.induct)
  case (1 lns i st)
  show ?case
  proof (cases "i < length lns")
    case True
    with "1.prems"(2) obtain j st1 where
      step: "parse_step lns i st = Inr (j, st1)" and rest: "parse_loop lns j st1 = Inr st'"
      by (subst (asm) parse_loop.simps) (auto split: sum.splits)
    from "1.IH" [OF True step refl names_inv_parse_step [OF "1.prems"(1) step True] rest]
    show ?thesis .
  next
    case False
    with "1.prems" show ?thesis by (subst (asm) parse_loop.simps) simp
  qed
qed

lemma parse_unified_diff_names:
  assumes "parse_unified_diff diff_text = Inr patches" "p \<in> set patches"
  shows "\<exists>l \<in> set (split_on newline diff_text). is_marker l \<and>
           (\<exists>g1. re_search_filename l = Some (g1, filename p))"
proof -
  from assms(1) obtain st where
    loop: "parse_loop (split_on newline diff_text) 0 init_state = Inr st" and
    patches: "patches = map (to_FilePatch (flush_file st)) (files (flush_file st))"
    by (auto simp: parse_unified_diff_def Let_def split: sum.splits)
  have "names_inv (split_on newline diff_text) (flush_file st)"
    using names_inv_parse_loop [OF names_inv_init loop] by (rule names_inv_flush)
  with assms(2) show ?thesis
    unfolding patches by (auto simp: names_inv_def to_FilePatch_def)
qed

lemma parse_step_unmatched_marker:
  assumes "i < length lns" "is_marker (lns ! i)" "re_search_filename (lns ! i) = None"
  shows "parse_step lns i st = Inr (i + 1, flush_file st)"
  using assms by (simp add: parse_step_def py_getitem_def is_marker_def file_header_def)

text \<open>
  Claim C5, as amended. A marker line whose header does not match the filename pattern
  does not stop the parse and starts no file record: that iteration goes on to the next
  line, appends the previous file (if there is one) to the output and allocates no dict.
  There is no \<open>unknown\<close> sentinel: every filename the parser returns is the second path
  captured from a marker line of the input whose header matched.
\<close>

theorem unmatched_marker_starts_no_record:
  "(i < length lns \<longrightarrow> is_marker (lns ! i) \<longrightarrow> re_search_filename (lns ! i) = None \<longrightarrow>
      (\<exists>st1. parse_step lns i st = Inr (i + 1, st1) \<and>
         files st1 = files st @ (case current_file st of None \<Rightarrow> [] | Some a \<Rightarrow> [a]) \<and>
         length (dicts st1) = length (dicts st))) \<and>
   (parse_unified_diff diff_text = Inr patches \<longrightarrow>
      (\<forall>p \<in> set patches. \<exists>l \<in> set (split_on newline diff_text).
         is_marker l \<and> (\<exists>g1. re_search_filename l = Some (g1, filename p))))"
  using parse_step_unmatched_marker [of i lns st] parse_unified_diff_names [of diff_text patches]
  by (auto simp: flush_file_frame)


theorem unmatched_marker_starts_no_record_witness:
  "1 < length [''diff --git a/x b/x'', ''diff --git x y''] \<and>
   is_marker ([''diff --git a/x b/x'', ''diff --git x y''] ! 1) \<and>
   re_search_filename ([''diff --git a/x b/x'', ''diff --git x y''] ! 1) = None \<and>
   (\<exists>st1. parse_step [''diff --git a/x b/x'', ''diff --git x y''] 1
            (file_header ''diff --git a/x b/x'' init_state) = Inr (1 + 1, st1) \<and>
          files st1 = [0] \<and> length (dicts st1) = 1) \<and>
   parse_unified_diff ''diff --git a/x b/x\<newline>diff --git x y'' =
     Inr [\<lparr>filename = ''x'', status = ''modified'', additions = 0, deletions = 0,
           hunks = [], language = None\<rparr>,
          \<lparr>filename = ''x'', status = ''modified'', additions = 0, deletions = 0,
           hunks = [], language = None\<rparr>] \<and>
   (\<exists>l \<in> set (split_on newline ''diff --git a/x b/x\<newline>diff --git x y'').
      is_marker l \<and> (\<exists>g1. re_search_filename l = Some (g1, ''x'')))"
proof -
  let ?lns = "[''diff --git a/x b/x'', ''diff --git x y'']"
  let ?st = "file_header ''diff --git a/x b/x'' init_state"
  let ?text = "''diff --git a/x b/x\<newline>diff --git x y''"
  let ?P = "\<lparr>filename = ''x'', status = ''modified'', additions = 0, deletions = 0,
             hunks = [], language = None\<rparr>"
  have h1: "1 < length ?lns" by simp
  have h2: "is_marker (?lns ! 1)" by code_simp
  have h3: "re_search_filename (?lns ! 1) = None" by code_simp
  have h4: "parse_unified_diff ?text = Inr [?P, ?P]" by code_simp
  have fl: "files ?st @ (case current_file ?st of None \<Rightarrow> [] | Some a \<Rightarrow> [a]) = [0]"
    by code_simp
  have dl: "length (dicts ?st) = 1" by code_simp
  note inst = unmatched_marker_starts_no_record [of 1 ?lns ?st ?text "[?P, ?P]"]
  from inst h1 h2 h3 have
    c1: "\<exists>st1. parse_step ?lns 1 ?st = Inr (1 + 1, st1) \<and>
           files st1 = files ?st @ (case current_file ?st of None \<Rightarrow> [] | Some a \<Rightarrow> [a]) \<and>
           length (dicts st1) = length (dicts ?st)"
    by blast
  then have c1': "\<exists>st1. parse_step ?lns 1 ?st = Inr (1 + 1, st1) \<and>
           files st1 = [0] \<and> length (dicts st1) = 1"
    unfolding fl dl .
  from inst h4 have
    "\<forall>p \<in> set [?P, ?P]. \<exists>l \<in> set (split_on newline ?text).
           is_marker l \<and> (\<exists>g1. re_search_filename l = Some (g1, filename p))"
    by blast
  then have c2: "\<exists>l \<in> set (split_on newline ?text).
           is_marker l \<and> (\<exists>g1. re_search_filename l = Some (g1, ''x''))"
    by simp
  show ?thesis by (intro conjI h1 h2 h3 h4 c1' c2)
qed

theorem unmatched_marker_section_dropped_counterexample:
  "is_marker ''diff --git x y'' \<and>
   re_search_filename ''diff --git x y'' = None \<and>
   parse_unified_diff ''diff --git x y\<newline>@@ -1 +1 @@\<newline>+new'' = Inr []"
  by code_simp

section \<open>Properties of the analyzers\<close>

subsection \<open>A failing call of the backend\<close>














text \<open>
  The controller passes the \<open>FilePatch\<close> objects of the parser. The first of them makes
  every analyzer raise before its \<open>try\<close>, so all three lists are empty, with the backend
  failing or not.
\<close>

lemma analyze_object: "analyze g name t (Object p # fds) pr = Inl (AttributeError ''get'')"
  by (simp add: analyze_def analyze_file_def file_prepare_def)

lemma run_all_agents_object:
  "run_all_agents g rg (Object p # fds) pr =
     \<lparr>code_review = [], security = [], performance = [], engineering_feedback = [],
      comments = []\<rparr>"
  by (simp add: run_all_agents_def analyze_object safe_agent_call_def refine_def)




section \<open>Properties of the refinement, the comment and the start of the process\<close>

subsection \<open>The refinement when the backend fails\<close>

lemma refine_file_backend_error:
  "gemini (file_name, file_issues) = Inl e \<Longrightarrow>
   refine_file gemini refined_results (file_name, file_issues) = refined_results @ file_issues"
  by (simp add: refine_file_def refine_try_def)

lemma generate_json_response_unparseable:
  assumes "generate_response prompt = Inr response_text"
    and "json_loads (clean_response response_text) = Inl JSONDecodeError"
  shows "generate_json_response generate_response json_loads prompt =
     Inr (PDict [(''files'', PList []), (''error'', PStr ''Failed to parse AI response'')])"
  using assms by (simp add: generate_json_response_def)

lemma refine_file_unparseable:
  assumes "generate_response (file_name, file_issues) = Inr response_text"
    and "json_loads (clean_response response_text) = Inl JSONDecodeError"
  shows "refine_file (generate_json_response generate_response json_loads) refined_results
           (file_name, file_issues) = refined_results"
proof -
  have "generate_json_response generate_response json_loads (file_name, file_issues) =
      Inr (PDict [(''files'', PList []), (''error'', PStr ''Failed to parse AI response'')])"
    using assms by (rule generate_json_response_unparseable)
  then show ?thesis
    by (simp add: refine_file_def refine_try_def)
qed

text \<open>
  Claim C7, at the input where the code breaks it. One finding for \<open>x.py\<close>; the model
  replies to the refinement with text that is no JSON. \<open>generate_json_response\<close> turns
  the parse error into a dict without the key \<open>refined_issues\<close>, no exception reaches
  the fallback of \<open>refine\<close>, and the refinement returns nothing: the finding is lost.
\<close>

theorem refine_loses_findings_on_unparseable_reply:
  "demo_unparseable_backend (PStr ''x.py'', [demo_finding]) =
     Inr (PDict [(''files'', PList []), (''error'', PStr ''Failed to parse AI response'')]) \<and>
   refine demo_unparseable_backend demo_agent_results = Inr []"
  by code_simp

subsection \<open>The comment of a report\<close>

lemma format_review_comment_no_files:
  assumes "files_review = None \<or> files_review = Some []"
  shows "format_review_comment upper (ReviewDict summary files_review) =
     comment_header @
     (case summary of None \<Rightarrow> [] | Some s \<Rightarrow> ''### Summary'' @ [newline] @ s @ [newline, newline]) @
     no_issues_line @ comment_footer"
  using assms by (auto simp: format_review_comment_def)

lemma format_review_comment_files:
  assumes "files_review = Some frs" "frs \<noteq> []"
  shows "format_review_comment upper (ReviewDict summary files_review) =
     comment_header @
     (case summary of None \<Rightarrow> [] | Some s \<Rightarrow> ''### Summary'' @ [newline] @ s @ [newline, newline]) @
     ''### Detailed Findings'' @ [newline, newline] @
     concat (map (format_file_review upper) frs) @ comment_footer"
  using assms by (cases frs) (auto simp: format_review_comment_def)

text \<open>
  Claim C8, at the input where the code breaks it. A report of one file with no finding
  is rendered with the heading of the detailed findings and a section for the file, and
  without the line that says no issues were found.
\<close>

theorem clean_report_renders_file_sections:
  "total_findings demo_clean_review = 0 \<and>
   format_review_comment upper demo_clean_review =
     comment_header @ ''### Summary'' @ [newline] @ ''Looks good.'' @ [newline, newline] @
     ''### Detailed Findings'' @ [newline, newline] @
     ''#### '' @ emoji_page @ '' `x.py`'' @ [newline, newline] @
     comment_footer \<and>
   list_ex (\<lambda>t. startswith t no_issues_line)
     (re_starts (format_review_comment upper demo_clean_review)) = False"
  by code_simp

subsection \<open>The start of the process\<close>

lemma startup_cases:
  "startup settings_outcome env =
     (case settings_outcome of
        Inl e \<Rightarrow> Inl e
      | Inr instance \<Rightarrow> Inl (AttributeError ''log_level''))"
  by (simp add: startup_def setup_logger_def settings_module_getattr_def split: sum.splits)

text \<open>
  Claim C9, at the input where the code breaks it. With both credentials in the
  environment and the settings loaded, the start of the process raises AttributeError
  when the logger is set up, since \<open>settings\<close> names the module; the constructor of the
  controller, were it reached, would raise AttributeError too, at \<open>settings.github_token\<close>.
  The error is not one of the configuration, and no environment avoids it.
\<close>

theorem startup_raises_attribute_error:
  "startup (Inr demo_settings) demo_environ = Inl (AttributeError ''log_level'') \<and>
   ReviewController_init demo_settings demo_environ = Inl (AttributeError ''github_token'') \<and>
   GeminiConfig_init demo_environ = Inr ''key'' \<and>
   (\<forall>settings_outcome env controller. startup settings_outcome env \<noteq> Inr controller)"
proof -
  have "startup (Inr demo_settings) demo_environ = Inl (AttributeError ''log_level'')"
    by (simp add: startup_cases)
  moreover have "ReviewController_init demo_settings demo_environ =
      Inl (AttributeError ''github_token'')"
    by (simp add: ReviewController_init_def GitHubService_init_def settings_module_getattr_def)
  moreover have "GeminiConfig_init demo_environ = Inr ''key''"
    by (simp add: GeminiConfig_init_def demo_environ_def)
  moreover have "startup settings_outcome env \<noteq> Inr controller" for settings_outcome env controller
    by (simp add: startup_cases split: sum.splits)
  ultimately show ?thesis by blast
qed

end
